theory Spec2Isabelle
  imports Complex_Main "HOL-Library.Word" "HOL-Library.Sublist"
begin

section \<open>Export of MySQL tables into a local SQLite file\<close>

text \<open>
  A shallow embedding of \<^verbatim>\<open>export_data_from_prod_db.py\<close>: the column resolution
  (\<^verbatim>\<open>get_table_columns\<close>), the destructive re-creation of a destination table
  (\<^verbatim>\<open>recreate_sqlite_table\<close>), the paged copy of one table (\<^verbatim>\<open>export_table\<close>) and
  the worker that drives the copy over the selected tables
  (\<^verbatim>\<open>RdsExportUI._export_worker\<close>).

  The two database engines and the window are not part of the program. They are modelled
  by their visible effect: the source is a set of tables that does not change during a
  run, the destination is a set of tables with a committed copy and an open transaction,
  and every call that reaches an engine or the window is appended to one chronological
  trace. Either engine may reject any operation (syntax, I/O, lost connection, a value it
  cannot bind): which operations are rejected is an input of the model, a predicate on
  the number of the operation on its connection, and every theorem that does not say
  otherwise holds for all such predicates. Python's floats are idealised as exact reals.
\<close>

subsection \<open>Values and errors\<close>

type_synonym byte = "8 word"

text \<open>A Python \<^verbatim>\<open>str\<close> held in a row is a sequence of Unicode code points.\<close>

type_synonym pystr = "nat list"

datatype error =
    MySQLError string
  | SQLiteError string
  | RuntimeError string
  | UnicodeDecodeError

text \<open>
  What a cell of a fetched row can be: \<^verbatim>\<open>None\<close>, an \<^verbatim>\<open>int\<close>, a \<^verbatim>\<open>str\<close>,
  \<^verbatim>\<open>bytes\<close>, a \<^verbatim>\<open>bytearray\<close>, or any other object (a \<^verbatim>\<open>Decimal\<close>, a
  \<^verbatim>\<open>datetime\<close>), kept by its printed form.
\<close>

datatype pyval =
    PyNone
  | PyInt int
  | PyStr pystr
  | PyBytes "byte list"
  | PyByteArray "byte list"
  | PyObject string

type_synonym row = "pyval list"

subsection \<open>\<^verbatim>\<open>bytes.decode('utf-8', errors=...)\<close>\<close>

text \<open>
  The decoder of the Python runtime, with its \<^verbatim>\<open>errors\<close> argument. One step reads the
  sequence that starts at the head of the input: it either decodes a code point from
  \<open>n\<close> bytes, or finds the input malformed over its first \<open>n\<close> bytes (an invalid start
  byte, an invalid continuation byte, or the end of the data inside a sequence).
\<close>

datatype errors = Strict | Replace

datatype utf8_step = Decoded nat nat | Malformed nat

definition is_continuation :: "byte \<Rightarrow> bool" where
  "is_continuation b \<longleftrightarrow> 0x80 \<le> b \<and> b \<le> 0xBF"

definition cont_bits :: "byte \<Rightarrow> nat" where
  "cont_bits b = unat b - 0x80"

fun utf8_next :: "byte list \<Rightarrow> utf8_step" where
  "utf8_next [] = Malformed 0"
| "utf8_next (b0 # bs) =
    (if b0 < 0x80 then Decoded (unat b0) 1
     else if b0 < 0xC2 then Malformed 1
     else if b0 < 0xE0 then
       (case bs of
          [] \<Rightarrow> Malformed 1
        | b1 # _ \<Rightarrow>
            if is_continuation b1
            then Decoded ((unat b0 - 0xC0) * 64 + cont_bits b1) 2
            else Malformed 1)
     else if b0 < 0xF0 then
       (case bs of
          [] \<Rightarrow> Malformed 1
        | b1 # bs1 \<Rightarrow>
            if \<not> is_continuation b1 \<or> (if b1 < 0xA0 then b0 = 0xE0 else b0 = 0xED)
            then Malformed 1
            else (case bs1 of
                    [] \<Rightarrow> Malformed 2
                  | b2 # _ \<Rightarrow>
                      if is_continuation b2
                      then Decoded ((unat b0 - 0xE0) * 4096 + cont_bits b1 * 64 + cont_bits b2) 3
                      else Malformed 2))
     else if b0 < 0xF5 then
       (case bs of
          [] \<Rightarrow> Malformed 1
        | b1 # bs1 \<Rightarrow>
            if \<not> is_continuation b1 \<or> (if b1 < 0x90 then b0 = 0xF0 else b0 = 0xF4)
            then Malformed 1
            else (case bs1 of
                    [] \<Rightarrow> Malformed 2
                  | b2 # bs2 \<Rightarrow>
                      if \<not> is_continuation b2 then Malformed 2
                      else (case bs2 of
                              [] \<Rightarrow> Malformed 3
                            | b3 # _ \<Rightarrow>
                                if is_continuation b3
                                then Decoded ((unat b0 - 0xF0) * 262144 + cont_bits b1 * 4096
                                              + cont_bits b2 * 64 + cont_bits b3) 4
                                else Malformed 3)))
     else Malformed 1)"

definition consumed :: "utf8_step \<Rightarrow> nat" where
  "consumed st = (case st of Decoded _ n \<Rightarrow> n | Malformed n \<Rightarrow> n)"

lemma utf8_next_consumes: "bs \<noteq> [] \<Longrightarrow> 0 < consumed (utf8_next bs)"
  by (cases bs) (auto simp: consumed_def split: list.splits)

text \<open>
  \<^verbatim>\<open>'strict'\<close> raises at the first malformed sequence; \<^verbatim>\<open>'replace'\<close> puts U+FFFD in its
  place and resumes after it.
\<close>

function bytes_decode :: "errors \<Rightarrow> byte list \<Rightarrow> error + pystr" where
  "bytes_decode errs bs =
    (if bs = [] then Inr []
     else (case utf8_next bs of
             Decoded cp n \<Rightarrow>
               (case bytes_decode errs (drop n bs) of
                  Inl e \<Rightarrow> Inl e
                | Inr s \<Rightarrow> Inr (cp # s))
           | Malformed n \<Rightarrow>
               (case errs of
                  Strict \<Rightarrow> Inl UnicodeDecodeError
                | Replace \<Rightarrow>
                    (case bytes_decode errs (drop n bs) of
                       Inl e \<Rightarrow> Inl e
                     | Inr s \<Rightarrow> Inr (0xFFFD # s)))))"
  by pat_completeness auto
termination
proof (relation "measure (\<lambda>(errs, bs). length bs)")
  show "wf (measure (\<lambda>(errs, bs). length bs))" by simp
next
  fix errs :: errors and bs :: "byte list" and cp n
  assume "bs \<noteq> []" and "utf8_next bs = Decoded cp n"
  with utf8_next_consumes [of bs] show "((errs, drop n bs), errs, bs) \<in> measure (\<lambda>(errs, bs). length bs)"
    by (simp add: consumed_def)
next
  fix errs :: errors and bs :: "byte list" and n
  assume "bs \<noteq> []" and "utf8_next bs = Malformed n"
  with utf8_next_consumes [of bs] show "((errs, drop n bs), errs, bs) \<in> measure (\<lambda>(errs, bs). length bs)"
    by (simp add: consumed_def)
qed

declare bytes_decode.simps [simp del]

subsection \<open>Conversion of a fetched row\<close>

text \<open>
  \<^verbatim>\<open>[v.decode('utf-8', errors='replace') if isinstance(v, (bytes, bytearray)) else v for v in r]\<close>
\<close>

definition convert_value :: "pyval \<Rightarrow> error + pyval" where
  "convert_value v =
    (case v of
       PyBytes b \<Rightarrow> (case bytes_decode Replace b of Inl e \<Rightarrow> Inl e | Inr s \<Rightarrow> Inr (PyStr s))
     | PyByteArray b \<Rightarrow> (case bytes_decode Replace b of Inl e \<Rightarrow> Inl e | Inr s \<Rightarrow> Inr (PyStr s))
     | _ \<Rightarrow> Inr v)"

fun convert_row :: "row \<Rightarrow> error + row" where
  "convert_row [] = Inr []"
| "convert_row (v # r) =
    (case convert_value v of
       Inl e \<Rightarrow> Inl e
     | Inr v' \<Rightarrow> (case convert_row r of Inl e \<Rightarrow> Inl e | Inr r' \<Rightarrow> Inr (v' # r')))"

text \<open>The batch built from one page: every row converted, in order.\<close>

fun convert_rows :: "row list \<Rightarrow> error + row list" where
  "convert_rows [] = Inr []"
| "convert_rows (r # rows) =
    (case convert_row r of
       Inl e \<Rightarrow> Inl e
     | Inr r' \<Rightarrow> (case convert_rows rows of Inl e \<Rightarrow> Inl e | Inr batch \<Rightarrow> Inr (r' # batch)))"

definition is_bytes :: "pyval \<Rightarrow> bool" where
  "is_bytes v = (case v of PyBytes _ \<Rightarrow> True | PyByteArray _ \<Rightarrow> True | _ \<Rightarrow> False)"

subsection \<open>Configuration\<close>

text \<open>
  The module's configuration block: \<^verbatim>\<open>TABLE_FILTERS\<close>, \<^verbatim>\<open>CHUNK_SIZE\<close>, and
  \<^verbatim>\<open>TABLE_FIELDS\<close>, which the module loads from \<^verbatim>\<open>table_fields.json\<close> (empty when
  the file is absent).
\<close>

record config =
  TABLE_FILTERS :: "string \<rightharpoonup> string"
  TABLE_FIELDS :: "string \<rightharpoonup> string list"
  CHUNK_SIZE :: nat

definition source_config :: "(string \<rightharpoonup> string list) \<Rightarrow> config" where
  "source_config table_fields =
    \<lparr> TABLE_FILTERS =
        [''upload_processors'' \<mapsto> ''uploaded_by IN (106, 109)'',
         ''remove_contacts'' \<mapsto> ''removed_by_user_id IN (106, 109)''],
      TABLE_FIELDS = table_fields,
      CHUNK_SIZE = 1000 \<rparr>"

subsection \<open>The source connection\<close>

text \<open>
  A source table has its columns, in the server's order, and its rows. The server's
  reading of a \<^verbatim>\<open>WHERE\<close> text on a row is the field \<open>my_where\<close>. \<open>my_ops\<close> counts
  the statements sent on the connection; statement number \<open>k\<close> is rejected when
  \<open>my_fault k\<close>.
\<close>

record src_table =
  t_columns :: "string list"
  t_rows :: "row list"

record mysql_conn =
  my_tables :: "string \<rightharpoonup> src_table"
  my_where :: "string \<Rightarrow> string list \<Rightarrow> row \<Rightarrow> bool"
  my_fault :: "nat \<Rightarrow> bool"
  my_ops :: nat

subsection \<open>The destination connection\<close>

text \<open>
  A destination table has its declared columns (name and type) and its rows. \<open>sq_disk\<close>
  is the committed database; \<open>sq_txn\<close> is the database as the open transaction sees it,
  if one is open. Operation number \<open>k\<close> on the connection is rejected when
  \<open>sq_fault k\<close>.
\<close>

record sq_table =
  sq_columns :: "(string \<times> string) list"
  sq_rows :: "row list"

type_synonym sq_db = "string \<rightharpoonup> sq_table"

record sqlite_conn =
  sq_disk :: sq_db
  sq_txn :: "sq_db option"
  sq_fault :: "nat \<Rightarrow> bool"
  sq_ops :: nat

definition sq_view :: "sqlite_conn \<Rightarrow> sq_db" where
  "sq_view c = (case sq_txn c of Some d \<Rightarrow> d | None \<Rightarrow> sq_disk c)"

subsection \<open>The trace\<close>

text \<open>
  A message is a formatted string, kept as its parts: literal text, and the fields
  that the f-string formats (a number, a percentage printed with one decimal, an
  exception).
\<close>

datatype msg_part = S string | N nat | Pct real | E error

type_synonym message = "msg_part list"

datatype query =
    SelectCount string
  | ShowColumns string
  | Select "string list" string "string option"

datatype stmt =
    Pragma string
  | DropTableIfExists string
  | CreateTable string "(string \<times> string) list"

datatype event =
    MyExecute query
  | MyFetchMany nat nat
  | MyClose
  | SqExecute stmt
  | SqExecuteMany string "string list" "row list"
  | SqCommit
  | SqClose
  | Progress real message
  | ShowInfo string string
  | ShowError string message
  | RunButton bool
  | RefreshStatus
  | HideAuxFiles
  | AskOpenFolder

record state =
  mysql :: mysql_conn
  sqlite :: sqlite_conn
  trace :: "event list"

definition emit :: "event \<Rightarrow> state \<Rightarrow> state" where
  "emit ev s = s\<lparr>trace := trace s @ [ev]\<rparr>"

subsection \<open>Statements on the source\<close>

text \<open>
  Sending a statement records it, counts it, and tells whether the server rejects it.
\<close>

definition my_send :: "query \<Rightarrow> state \<Rightarrow> bool \<times> state" where
  "my_send q s =
    (let c = mysql s
     in (my_fault c (my_ops c),
         emit (MyExecute q) (s\<lparr>mysql := c\<lparr>my_ops := my_ops c + 1\<rparr>\<rparr>)))"

text \<open>\<^verbatim>\<open>SELECT COUNT(*) FROM `table`\<close>\<close>

definition fetch_table_count :: "string \<Rightarrow> state \<Rightarrow> (error + nat) \<times> state" where
  "fetch_table_count table s =
    (case my_send (SelectCount table) s of
       (True, s') \<Rightarrow> (Inl (MySQLError ''statement rejected''), s')
     | (False, s') \<Rightarrow>
         (case my_tables (mysql s') table of
            None \<Rightarrow> (Inl (MySQLError ''table does not exist''), s')
          | Some tb \<Rightarrow> (Inr (length (t_rows tb)), s')))"

text \<open>\<^verbatim>\<open>SHOW COLUMNS FROM `table`\<close>, the first field of each row.\<close>

definition show_columns :: "string \<Rightarrow> state \<Rightarrow> (error + string list) \<times> state" where
  "show_columns table s =
    (case my_send (ShowColumns table) s of
       (True, s') \<Rightarrow> (Inl (MySQLError ''statement rejected''), s')
     | (False, s') \<Rightarrow>
         (case my_tables (mysql s') table of
            None \<Rightarrow> (Inl (MySQLError ''table does not exist''), s')
          | Some tb \<Rightarrow> (Inr (t_columns tb), s')))"

text \<open>
  The columns to export, given the columns of the table: the entries of the table's
  list in \<^verbatim>\<open>TABLE_FIELDS\<close> that exist in the table, or all columns when the table
  has no list.
\<close>

definition export_columns :: "config \<Rightarrow> string \<Rightarrow> string list \<Rightarrow> string list" where
  "export_columns cfg table all_columns =
    (case TABLE_FIELDS cfg table of
       Some allowed \<Rightarrow> [c \<leftarrow> allowed. c \<in> set all_columns]
     | None \<Rightarrow> all_columns)"

definition get_table_columns :: "config \<Rightarrow> string \<Rightarrow> state \<Rightarrow> (error + string list) \<times> state" where
  "get_table_columns cfg table s =
    (case show_columns table s of
       (Inl e, s') \<Rightarrow> (Inl e, s')
     | (Inr all_columns, s') \<Rightarrow> (Inr (export_columns cfg table all_columns), s'))"

text \<open>
  \<^verbatim>\<open>SELECT `c1`, ... FROM `table` [WHERE filter]\<close> on a buffered cursor: the rows that
  pass the filter, each reduced to the selected columns, are all held by the cursor when
  the statement returns.
\<close>

definition cell :: "string list \<Rightarrow> row \<Rightarrow> string \<Rightarrow> pyval" where
  "cell cols r c = (case map_of (zip cols r) c of Some v \<Rightarrow> v | None \<Rightarrow> PyNone)"

definition select_rows :: "mysql_conn \<Rightarrow> src_table \<Rightarrow> string list \<Rightarrow> string option \<Rightarrow> row list" where
  "select_rows c tb columns filter_predicate =
    [map (cell (t_columns tb) r) columns.
       r \<leftarrow> t_rows tb,
       (case filter_predicate of None \<Rightarrow> True | Some p \<Rightarrow> my_where c p (t_columns tb) r)]"

definition execute_select ::
  "string list \<Rightarrow> string \<Rightarrow> string option \<Rightarrow> state \<Rightarrow> (error + row list) \<times> state" where
  "execute_select columns table filter_predicate s =
    (case my_send (Select columns table filter_predicate) s of
       (True, s') \<Rightarrow> (Inl (MySQLError ''statement rejected''), s')
     | (False, s') \<Rightarrow>
         (case my_tables (mysql s') table of
            None \<Rightarrow> (Inl (MySQLError ''table does not exist''), s')
          | Some tb \<Rightarrow>
              if \<not> set columns \<subseteq> set (t_columns tb)
              then (Inl (MySQLError ''unknown column''), s')
              else (Inr (select_rows (mysql s') tb columns filter_predicate), s')))"

subsection \<open>Operations on the destination\<close>

definition sq_send :: "event \<Rightarrow> state \<Rightarrow> bool \<times> state" where
  "sq_send ev s =
    (let c = sqlite s
     in (sq_fault c (sq_ops c),
         emit ev (s\<lparr>sqlite := c\<lparr>sq_ops := sq_ops c + 1\<rparr>\<rparr>)))"

text \<open>
  A change of the schema or of the rows goes to the open transaction if there is one.
  Outside a transaction a schema statement is committed as it runs, and an
  \<^verbatim>\<open>INSERT\<close> opens a transaction first.
\<close>

definition sq_write_ddl :: "sq_db \<Rightarrow> sqlite_conn \<Rightarrow> sqlite_conn" where
  "sq_write_ddl d c =
    (case sq_txn c of Some _ \<Rightarrow> c\<lparr>sq_txn := Some d\<rparr> | None \<Rightarrow> c\<lparr>sq_disk := d\<rparr>)"

definition sq_execute :: "stmt \<Rightarrow> state \<Rightarrow> (error + unit) \<times> state" where
  "sq_execute st s =
    (case sq_send (SqExecute st) s of
       (True, s') \<Rightarrow> (Inl (SQLiteError ''statement rejected''), s')
     | (False, s') \<Rightarrow>
         (let c = sqlite s'; d = sq_view c
          in case st of
               Pragma _ \<Rightarrow> (Inr (), s')
             | DropTableIfExists t \<Rightarrow> (Inr (), s'\<lparr>sqlite := sq_write_ddl (d(t := None)) c\<rparr>)
             | CreateTable t cols \<Rightarrow>
                 (case d t of
                    Some _ \<Rightarrow> (Inl (SQLiteError ''table already exists''), s')
                  | None \<Rightarrow>
                      (Inr (), s'\<lparr>sqlite :=
                         sq_write_ddl (d(t \<mapsto> \<lparr>sq_columns = cols, sq_rows = []\<rparr>)) c\<rparr>))))"

text \<open>
  \<^verbatim>\<open>executemany("INSERT INTO 't' (`c1`, ...) VALUES (?, ...)", batch)\<close>: every row of
  the batch is appended, its values placed under the named columns and \<^verbatim>\<open>NULL\<close>
  elsewhere. The statement needs the table, the named columns, and as many values in
  every row as it has placeholders.
\<close>

definition stored_row :: "sq_table \<Rightarrow> string list \<Rightarrow> row \<Rightarrow> row" where
  "stored_row tb columns r = map (cell columns r) (map fst (sq_columns tb))"

definition sq_executemany :: "string \<Rightarrow> string list \<Rightarrow> row list \<Rightarrow> state \<Rightarrow> (error + unit) \<times> state" where
  "sq_executemany table columns batch s =
    (case sq_send (SqExecuteMany table columns batch) s of
       (True, s') \<Rightarrow> (Inl (SQLiteError ''statement rejected''), s')
     | (False, s') \<Rightarrow>
         (let c = sqlite s'; d = sq_view c
          in case d table of
               None \<Rightarrow> (Inl (SQLiteError ''no such table''), s')
             | Some tb \<Rightarrow>
                 if \<not> set columns \<subseteq> fst ` set (sq_columns tb)
                 then (Inl (SQLiteError ''no such column''), s')
                 else if \<exists>r \<in> set batch. length r \<noteq> length columns
                 then (Inl (SQLiteError ''incorrect number of bindings''), s')
                 else (Inr (),
                       s'\<lparr>sqlite := c\<lparr>sq_txn :=
                          Some (d(table \<mapsto> tb\<lparr>sq_rows := sq_rows tb @ map (stored_row tb columns) batch\<rparr>))\<rparr>\<rparr>)))"

definition sq_commit :: "state \<Rightarrow> (error + unit) \<times> state" where
  "sq_commit s =
    (case sq_send SqCommit s of
       (True, s') \<Rightarrow> (Inl (SQLiteError ''commit rejected''), s')
     | (False, s') \<Rightarrow>
         (let c = sqlite s'
          in (Inr (), s'\<lparr>sqlite := c\<lparr>sq_disk := sq_view c, sq_txn := None\<rparr>\<rparr>)))"

text \<open>Closing the connection rolls an open transaction back.\<close>

definition sq_close :: "state \<Rightarrow> state" where
  "sq_close s = emit SqClose (s\<lparr>sqlite := (sqlite s)\<lparr>sq_txn := None\<rparr>\<rparr>)"

definition my_close :: "state \<Rightarrow> state" where
  "my_close s = emit MyClose s"

subsection \<open>\<^verbatim>\<open>recreate_sqlite_table\<close>\<close>

text \<open>Every column is declared \<^verbatim>\<open>TEXT\<close>.\<close>

definition col_defs :: "string list \<Rightarrow> (string \<times> string) list" where
  "col_defs columns = map (\<lambda>c. (c, ''TEXT'')) columns"

definition recreate_sqlite_table :: "string \<Rightarrow> string list \<Rightarrow> state \<Rightarrow> (error + unit) \<times> state" where
  "recreate_sqlite_table table columns s =
    (case sq_execute (Pragma ''foreign_keys = OFF'') s of
       (Inl e, s1) \<Rightarrow> (Inl e, s1)
     | (Inr _, s1) \<Rightarrow>
    (case sq_commit s1 of
       (Inl e, s2) \<Rightarrow> (Inl e, s2)
     | (Inr _, s2) \<Rightarrow>
    (case sq_execute (DropTableIfExists table) s2 of
       (Inl e, s3) \<Rightarrow> (Inl e, s3)
     | (Inr _, s3) \<Rightarrow>
    (case sq_execute (CreateTable table (col_defs columns)) s3 of
       (Inl e, s4) \<Rightarrow> (Inl e, s4)
     | (Inr _, s4) \<Rightarrow> sq_commit s4))))"

subsection \<open>\<^verbatim>\<open>export_table\<close>\<close>

type_synonym callback = "real \<Rightarrow> message \<Rightarrow> state \<Rightarrow> state"

text \<open>
  The loop \<^verbatim>\<open>for _ in batch\<close> after the commit of a page: it counts the rows of the
  page one by one and reports at every 50th.
\<close>

fun update_row_progress ::
  "callback option \<Rightarrow> string \<Rightarrow> real \<Rightarrow> real \<Rightarrow> nat \<Rightarrow> row list \<Rightarrow> nat \<Rightarrow> state \<Rightarrow> nat \<times> state" where
  "update_row_progress progress_callback table offset_progress table_weight total_rows [] rows_inserted s =
    (rows_inserted, s)"
| "update_row_progress progress_callback table offset_progress table_weight total_rows (_ # batch) rows_inserted s =
    (let rows_inserted = rows_inserted + 1;
         s' = (case progress_callback of
                 Some cb \<Rightarrow>
                   if rows_inserted mod 50 = 0 then
                     (let table_progress = real rows_inserted / real total_rows;
                          overall_fraction = offset_progress + table_weight * table_progress
                      in cb overall_fraction
                           [S table, S '': '', N rows_inserted, S ''/'', N total_rows,
                            S '' rows ('', Pct (table_progress * 100), S ''%)''] s)
                   else s
               | None \<Rightarrow> s)
     in update_row_progress progress_callback table offset_progress table_weight total_rows
          batch rows_inserted s')"

text \<open>
  The loop \<^verbatim>\<open>while True\<close>: \<open>buffer\<close> holds the rows the cursor has not handed out
  yet, and \<^verbatim>\<open>fetchmany\<close> takes the next \<^verbatim>\<open>CHUNK_SIZE\<close> of them.
\<close>

function export_pages ::
  "config \<Rightarrow> string \<Rightarrow> string list \<Rightarrow> callback option \<Rightarrow> real \<Rightarrow> real \<Rightarrow> nat \<Rightarrow>
   row list \<Rightarrow> nat \<Rightarrow> state \<Rightarrow> (error + unit) \<times> state" where
  "export_pages cfg table columns progress_callback offset_progress table_weight total_rows
     buffer rows_inserted s =
    (let rows = take (CHUNK_SIZE cfg) buffer;
         s0 = emit (MyFetchMany (CHUNK_SIZE cfg) (length rows)) s
     in if rows = [] then (Inr (), s0)
        else
         (case convert_rows rows of
            Inl e \<Rightarrow> (Inl e, s0)
          | Inr batch \<Rightarrow>
         (case sq_executemany table columns batch s0 of
            (Inl e, s1) \<Rightarrow> (Inl e, s1)
          | (Inr _, s1) \<Rightarrow>
         (case sq_commit s1 of
            (Inl e, s2) \<Rightarrow> (Inl e, s2)
          | (Inr _, s2) \<Rightarrow>
         (case update_row_progress progress_callback table offset_progress table_weight
                 total_rows batch rows_inserted s2 of
            (rows_inserted', s3) \<Rightarrow>
              export_pages cfg table columns progress_callback offset_progress table_weight
                total_rows (drop (CHUNK_SIZE cfg) buffer) rows_inserted' s3)))))"
  by pat_completeness auto
termination
proof (relation "measure (\<lambda>(cfg, table, columns, cb, off, w, total, buffer, n, s). length buffer)")
  show "wf (measure (\<lambda>(cfg, table, columns, cb, off, w, total, buffer, n, s). length (buffer :: row list)))"
    by simp
next
  fix cfg :: config and buffer :: "row list" and rows :: "row list"
  fix table columns and cb :: "callback option" and off w :: real and total n n' :: nat
  fix s s3 :: state
  assume "rows = take (CHUNK_SIZE cfg) buffer" and "rows \<noteq> []"
  then have "0 < CHUNK_SIZE cfg" and "buffer \<noteq> []"
    by auto
  then show "((cfg, table, columns, cb, off, w, total, drop (CHUNK_SIZE cfg) buffer, n', s3),
              cfg, table, columns, cb, off, w, total, buffer, n, s)
             \<in> measure (\<lambda>(cfg, table, columns, cb, off, w, total, buffer, n, s). length buffer)"
    by simp
qed

declare export_pages.simps [simp del]

definition export_table ::
  "config \<Rightarrow> string \<Rightarrow> callback option \<Rightarrow> real \<Rightarrow> real \<Rightarrow> state \<Rightarrow> (error + unit) \<times> state" where
  "export_table cfg table progress_callback offset_progress table_weight s =
    (case fetch_table_count table s of
       (r, s0) \<Rightarrow>
    (let total_rows = (case r of Inl _ \<Rightarrow> 0 | Inr n \<Rightarrow> n)
     in case get_table_columns cfg table s0 of
       (Inl e, s1) \<Rightarrow> (Inl e, s1)
     | (Inr columns, s1) \<Rightarrow>
    (case recreate_sqlite_table table columns s1 of
       (Inl e, s2) \<Rightarrow> (Inl e, s2)
     | (Inr _, s2) \<Rightarrow>
         if total_rows = 0 then
           (Inr (),
            (case progress_callback of
               Some cb \<Rightarrow> cb (offset_progress + table_weight) [S table, S '' (0 rows)''] s2
             | None \<Rightarrow> s2))
         else
           (case execute_select columns table (TABLE_FILTERS cfg table) s2 of
              (Inl e, s3) \<Rightarrow> (Inl e, s3)
            | (Inr buffer, s3) \<Rightarrow>
                export_pages cfg table columns progress_callback offset_progress table_weight
                  total_rows buffer 0 s3))))"

subsection \<open>\<^verbatim>\<open>RdsExportUI._export_worker\<close>\<close>

text \<open>
  \<^verbatim>\<open>RdsExportUI.progress_callback\<close> sets the bar and the label; it swallows every
  exception of the window.
\<close>

definition progress_callback :: callback where
  "progress_callback fraction message s = emit (Progress fraction message) s"

text \<open>The loop \<^verbatim>\<open>for t in selected_tables\<close>.\<close>

fun export_tables :: "config \<Rightarrow> real \<Rightarrow> string list \<Rightarrow> nat \<Rightarrow> state \<Rightarrow> (error + unit) \<times> state" where
  "export_tables cfg per_table_weight [] tables_done s = (Inr (), s)"
| "export_tables cfg per_table_weight (t # selected_tables) tables_done s =
    (let offset = per_table_weight * real tables_done;
         s1 = progress_callback offset [S ''Preparing to export '', S t, S ''...''] s
     in case export_table cfg t (Some progress_callback) offset per_table_weight s1 of
          (Inl e, s2) \<Rightarrow> (Inl e, s2)
        | (Inr _, s2) \<Rightarrow> export_tables cfg per_table_weight selected_tables (tables_done + 1) s2)"

text \<open>
  The \<^verbatim>\<open>try\<close> block over the two open connections, its \<^verbatim>\<open>except\<close> handler and its
  \<^verbatim>\<open>finally\<close> clause.
\<close>

definition export_try :: "config \<Rightarrow> string \<Rightarrow> string list \<Rightarrow> state \<Rightarrow> (error + unit) \<times> state" where
  "export_try cfg selected_db_path selected_tables s =
    (let n = length selected_tables;
         per_table_weight = (if n \<noteq> 0 then 1 / real n else 1)
     in case export_tables cfg per_table_weight selected_tables 0 s of
          (Inl e, s1) \<Rightarrow> (Inl e, s1)
        | (Inr _, s1) \<Rightarrow>
            (case sq_commit s1 of
               (Inl e, s2) \<Rightarrow> (Inl e, s2)
             | (Inr _, s2) \<Rightarrow>
                 (Inr (),
                  emit AskOpenFolder
                    (progress_callback 1
                       [S (''Export complete. Local DB saved at:'' @ [CHR 0x0A]), S selected_db_path]
                       (emit HideAuxFiles (my_close (sq_close s2)))))))"

definition export_run :: "config \<Rightarrow> string \<Rightarrow> string list \<Rightarrow> state \<Rightarrow> state" where
  "export_run cfg selected_db_path selected_tables s =
    (let s' =
       (case export_try cfg selected_db_path selected_tables s of
          (Inr _, s1) \<Rightarrow> s1
        | (Inl e, s1) \<Rightarrow>
            emit (ShowError ''Export failed''
                    [S (''An error occurred during export:'' @ [CHR 0x0A]), E e])
              (progress_callback 0 [S ''Export failed: '', E e] (my_close (sq_close s1))))
     in emit RefreshStatus (emit (RunButton True) s'))"

text \<open>
  What the worker meets outside the program: whether the credentials are all set, what
  connecting to the server gives, what opening the destination file gives, and the
  chosen path.
\<close>

record env =
  credentials :: bool
  mysql_server :: "error + mysql_conn"
  sqlite_file :: "error + sqlite_conn"
  selected_db_path :: string

definition get_mysql_connection :: "env \<Rightarrow> error + mysql_conn" where
  "get_mysql_connection env =
    (if \<not> credentials env then Inl (RuntimeError ''Missing database credentials.'')
     else mysql_server env)"

text \<open>
  The handler of the \<^verbatim>\<open>try\<close> block that opens the destination: it shows the error,
  closes the source connection and enables the button again.
\<close>

definition sqlite_open_failed :: "error \<Rightarrow> event list \<Rightarrow> event list" where
  "sqlite_open_failed e tr =
    tr @ [ShowError ''SQLite error'' [S (''Failed to open/create SQLite DB:'' @ [CHR 0x0A]), E e],
          MyClose, RunButton True]"

text \<open>
  The worker returns the trace of the run and the destination connection, when it was
  opened. \<open>table_vars\<close> is the dictionary of the check boxes, in its order.
\<close>

definition export_worker :: "config \<Rightarrow> env \<Rightarrow> (string \<times> bool) list \<Rightarrow> event list \<times> sqlite_conn option" where
  "export_worker cfg env table_vars =
    (let selected_tables = [t. (t, var) \<leftarrow> table_vars, var]
     in if selected_tables = [] then
          ([ShowInfo ''No tables'' ''No tables selected for export.'', RunButton True], None)
        else
          (let tr = [Progress 0.02 [S ''Connecting to MySQL...'']]
           in case get_mysql_connection env of
                Inl e \<Rightarrow>
                  (tr @ [ShowError ''MySQL connection error''
                           [S (''Failed to connect to MySQL:'' @ [CHR 0x0A]), E e],
                         RunButton True,
                         Progress 0 [S ''Connection failed.'']], None)
              | Inr mysql_conn \<Rightarrow>
                  (case sqlite_file env of
                     Inl e \<Rightarrow> (sqlite_open_failed e tr, None)
                   | Inr sqlite_conn \<Rightarrow>
                       (case sq_execute (Pragma ''journal_mode=WAL'')
                               \<lparr>mysql = mysql_conn, sqlite = sqlite_conn, trace = tr\<rparr> of
                          (Inl e, s1) \<Rightarrow> (sqlite_open_failed e (trace s1), None)
                        | (Inr _, s1) \<Rightarrow>
                            (case sq_execute (Pragma ''synchronous=NORMAL'') s1 of
                               (Inl e, s2) \<Rightarrow> (sqlite_open_failed e (trace s2), None)
                             | (Inr _, s2) \<Rightarrow>
                                 (let s3 = export_run cfg (selected_db_path env) selected_tables s2
                                  in (trace s3, Some (sqlite s3))))))))"

section \<open>Notions used in the statements\<close>

text \<open>The text that the replacing decoder gives, and a row after its conversion.\<close>

definition replace_decode :: "byte list \<Rightarrow> pystr" where
  "replace_decode bs = (case bytes_decode Replace bs of Inr s \<Rightarrow> s | Inl _ \<Rightarrow> [])"

definition text_value :: "pyval \<Rightarrow> pyval" where
  "text_value v =
    (case v of
       PyBytes b \<Rightarrow> PyStr (replace_decode b)
     | PyByteArray b \<Rightarrow> PyStr (replace_decode b)
     | _ \<Rightarrow> v)"

text \<open>A destination table as \<^verbatim>\<open>recreate_sqlite_table\<close> leaves it.\<close>

definition empty_table :: "string list \<Rightarrow> sq_table" where
  "empty_table columns = \<lparr>sq_columns = col_defs columns, sq_rows = []\<rparr>"

text \<open>A list cut into pages of \<open>n\<close> elements, the last one possibly shorter.\<close>

function pages :: "nat \<Rightarrow> 'a list \<Rightarrow> 'a list list" where
  "pages n xs = (if n = 0 \<or> xs = [] then [] else take n xs # pages n (drop n xs))"
  by pat_completeness auto
termination
  by (relation "measure (\<lambda>(n, xs). length xs)") auto

declare pages.simps [simp del]

text \<open>
  The update that \<^verbatim>\<open>export_table\<close> sends when its counter of inserted rows is \<open>k\<close>,
  and the updates it sends while the counter goes from \<open>n\<close> to \<open>n + m\<close>.
\<close>

definition row_update :: "string \<Rightarrow> real \<Rightarrow> real \<Rightarrow> nat \<Rightarrow> nat \<Rightarrow> event" where
  "row_update table offset_progress table_weight total_rows k =
    Progress (offset_progress + table_weight * (real k / real total_rows))
      [S table, S '': '', N k, S ''/'', N total_rows,
       S '' rows ('', Pct (real k / real total_rows * 100), S ''%)'']"

definition row_updates :: "string \<Rightarrow> real \<Rightarrow> real \<Rightarrow> nat \<Rightarrow> nat \<Rightarrow> nat \<Rightarrow> event list" where
  "row_updates table offset_progress table_weight total_rows n m =
    map (row_update table offset_progress table_weight total_rows)
      [k \<leftarrow> [n + 1 ..< n + m + 1]. k mod 50 = 0]"

definition is_progress :: "event \<Rightarrow> bool" where
  "is_progress ev = (case ev of Progress _ _ \<Rightarrow> True | _ \<Rightarrow> False)"

text \<open>
  The engines accept the next \<open>n\<close> operations on their connection.
\<close>

definition my_accepts :: "state \<Rightarrow> nat \<Rightarrow> bool" where
  "my_accepts s n \<longleftrightarrow> (\<forall>i<n. \<not> my_fault (mysql s) (my_ops (mysql s) + i))"

definition sq_accepts :: "state \<Rightarrow> nat \<Rightarrow> bool" where
  "sq_accepts s n \<longleftrightarrow> (\<forall>i<n. \<not> sq_fault (sqlite s) (sq_ops (sqlite s) + i))"

section \<open>Example inputs\<close>

text \<open>
  A source with a table of five rows, a table of five rows of which the filter keeps
  two, a table without rows, a table of 120 rows, and a table of 120 rows of which the
  filter keeps 60; a destination that holds an older copy of one table;
  no operation is rejected.
\<close>

definition demo_source :: mysql_conn where
  "demo_source =
    \<lparr> my_tables =
        [''contacts'' \<mapsto>
           \<lparr> t_columns = [''id'', ''name'', ''email''],
             t_rows = [[PyInt 1, PyStr [0x41], PyBytes [0x61, 0xFF]],
                       [PyInt 2, PyStr [0x42], PyNone],
                       [PyInt 3, PyStr [0x43], PyBytes [0x63]],
                       [PyInt 4, PyStr [0x44], PyNone],
                       [PyInt 5, PyStr [0x45], PyNone]] \<rparr>,
         ''remove_contacts'' \<mapsto>
           \<lparr> t_columns = [''id'', ''removed_by_user_id''],
             t_rows = [[PyInt 1, PyInt 106], [PyInt 2, PyInt 7], [PyInt 3, PyInt 109],
                       [PyInt 4, PyInt 8], [PyInt 5, PyInt 9]] \<rparr>,
         ''contact_targets'' \<mapsto> \<lparr> t_columns = [''id'', ''target''], t_rows = [] \<rparr>,
         ''contact_addresses'' \<mapsto>
           \<lparr> t_columns = [''id'', ''city''],
             t_rows = replicate 120 [PyInt 1, PyBytes [0x41]] \<rparr>,
         ''upload_processors'' \<mapsto>
           \<lparr> t_columns = [''id'', ''uploaded_by''],
             t_rows = replicate 60 [PyInt 1, PyInt 106] @ replicate 60 [PyInt 2, PyInt 5] \<rparr>],
      my_where =
        (\<lambda>p cols r.
           if p = ''uploaded_by IN (106, 109)''
           then cell cols r ''uploaded_by'' \<in> {PyInt 106, PyInt 109}
           else cell cols r ''removed_by_user_id'' \<in> {PyInt 106, PyInt 109}),
      my_fault = (\<lambda>k. False),
      my_ops = 0 \<rparr>"

definition demo_dest :: sqlite_conn where
  "demo_dest =
    \<lparr> sq_disk = [''contacts'' \<mapsto> \<lparr> sq_columns = [(''id'', ''TEXT'')], sq_rows = [[PyInt 99]] \<rparr>],
      sq_txn = None,
      sq_fault = (\<lambda>k. False),
      sq_ops = 0 \<rparr>"

definition demo_state :: state where
  "demo_state = \<lparr> mysql = demo_source, sqlite = demo_dest, trace = [] \<rparr>"

definition demo_config :: config where
  "demo_config = (source_config [''contacts'' \<mapsto> [''email'', ''ghost'', ''id'']])\<lparr>CHUNK_SIZE := 2\<rparr>"

text \<open>
  The trace of the pages that \<^verbatim>\<open>export_table\<close> writes in full, the counter of
  inserted rows being \<open>n\<close> before the first of them: each page is fetched, inserted by
  one statement, committed, and then reported. And the trace of the page whose write
  fails, the failure being the insertion (\<open>j\<close> even) or the commit (\<open>j\<close> odd).
\<close>

fun page_blocks ::
  "nat \<Rightarrow> string \<Rightarrow> string list \<Rightarrow> real \<Rightarrow> real \<Rightarrow> nat \<Rightarrow> nat \<Rightarrow> row list list \<Rightarrow> event list" where
  "page_blocks chunk table columns off w total_rows n [] = []"
| "page_blocks chunk table columns off w total_rows n (p # ps) =
    [MyFetchMany chunk (length p), SqExecuteMany table columns p, SqCommit]
    @ row_updates table off w total_rows n (length p)
    @ page_blocks chunk table columns off w total_rows (n + length p) ps"

definition failed_page :: "nat \<Rightarrow> string \<Rightarrow> string list \<Rightarrow> nat \<Rightarrow> row list \<Rightarrow> event list" where
  "failed_page chunk table columns j p =
    [MyFetchMany chunk (length p), SqExecuteMany table columns p]
    @ (if odd j then [SqCommit] else [])"
text \<open>One page written in full: the state in which the loop goes on.\<close>

definition after_page ::
  "nat \<Rightarrow> string \<Rightarrow> string list \<Rightarrow> real \<Rightarrow> real \<Rightarrow> nat \<Rightarrow> nat \<Rightarrow> sq_table \<Rightarrow> row list \<Rightarrow> state \<Rightarrow> state" where
  "after_page chunk table columns off w total_rows n tb batch s =
    s\<lparr>sqlite := (sqlite s)\<lparr>sq_ops := Suc (Suc (sq_ops (sqlite s))),
         sq_disk := (sq_disk (sqlite s))
           (table \<mapsto> tb\<lparr>sq_rows := sq_rows tb @ map (stored_row tb columns) batch\<rparr>),
         sq_txn := None\<rparr>,
      trace := trace s @ [MyFetchMany chunk (length batch), SqExecuteMany table columns batch, SqCommit]
               @ row_updates table off w total_rows n (length batch)\<rparr>"

text \<open>
  The state after the source has answered the statements \<open>qs\<close>, and the state after
  \<^verbatim>\<open>recreate_sqlite_table\<close> has run without a rejection.
\<close>

definition my_sent :: "query list \<Rightarrow> state \<Rightarrow> state" where
  "my_sent qs s =
    s\<lparr>mysql := (mysql s)\<lparr>my_ops := my_ops (mysql s) + length qs\<rparr>,
      trace := trace s @ map MyExecute qs\<rparr>"

definition recreate_events :: "string \<Rightarrow> string list \<Rightarrow> event list" where
  "recreate_events table columns =
    [SqExecute (Pragma ''foreign_keys = OFF''), SqCommit,
     SqExecute (DropTableIfExists table),
     SqExecute (CreateTable table (col_defs columns)), SqCommit]"

definition after_recreate :: "string \<Rightarrow> string list \<Rightarrow> state \<Rightarrow> state" where
  "after_recreate table columns s =
    s\<lparr>sqlite := (sqlite s)\<lparr>sq_ops := sq_ops (sqlite s) + 5,
         sq_disk := (sq_view (sqlite s))(table \<mapsto> empty_table columns),
         sq_txn := None\<rparr>,
      trace := trace s @ recreate_events table columns\<rparr>"

definition demo_env :: env where
  "demo_env =
    \<lparr> credentials = True,
      mysql_server = Inr demo_source,
      sqlite_file = Inr demo_dest,
      selected_db_path = ''database/prod_database_local_copy.db'' \<rparr>"

section \<open>Properties\<close>

subsection \<open>The replacing decoder and the conversion of rows\<close>

lemma bytes_decode_replace_total:
  "errs = Replace \<Longrightarrow> \<exists>s. bytes_decode errs bs = Inr s"
proof (induction errs bs rule: bytes_decode.induct)
  case (1 errs bs)
  show ?case
  proof (cases "bs = []")
    case True
    then show ?thesis by (simp add: bytes_decode.simps)
  next
    case False
    show ?thesis
    proof (cases "utf8_next bs")
      case (Decoded cp n)
      with False "1.IH"(1) [OF False Decoded] "1.prems" show ?thesis
        by (subst bytes_decode.simps) auto
    next
      case (Malformed n)
      with False "1.IH"(2) [OF False Malformed] "1.prems" show ?thesis
        by (subst bytes_decode.simps) auto
    qed
  qed
qed

lemma bytes_decode_strict_replace:
  "bytes_decode Strict bs = Inr s \<Longrightarrow> bytes_decode Replace bs = Inr s"
proof (induction "length bs" arbitrary: bs s rule: less_induct)
  case less
  show ?case
  proof (cases "bs = []")
    case True
    with less.prems show ?thesis by (simp add: bytes_decode.simps)
  next
    case False
    then have pos: "0 < consumed (utf8_next bs)" by (rule utf8_next_consumes)
    show ?thesis
    proof (cases "utf8_next bs")
      case (Decoded cp n)
      with pos have n: "0 < n" by (simp add: consumed_def)
      from less.prems False Decoded obtain s' where
        s': "bytes_decode Strict (drop n bs) = Inr s'" "s = cp # s'"
        by (subst (asm) bytes_decode.simps) (auto split: sum.splits)
      from n False have "length (drop n bs) < length bs" by simp
      from less.hyps [OF this s'(1)] have "bytes_decode Replace (drop n bs) = Inr s'" .
      with False Decoded s'(2) show ?thesis
        by (subst bytes_decode.simps) simp
    next
      case (Malformed n)
      with less.prems False show ?thesis
        by (subst (asm) bytes_decode.simps) simp
    qed
  qed
qed

lemma bytes_decode_strict_fails:
  "bytes_decode Strict bs = Inl e \<Longrightarrow> \<exists>s. bytes_decode Replace bs = Inr s \<and> 0xFFFD \<in> set s"
proof (induction "length bs" arbitrary: bs rule: less_induct)
  case less
  show ?case
  proof (cases "bs = []")
    case True
    with less.prems show ?thesis by (simp add: bytes_decode.simps)
  next
    case False
    then have pos: "0 < consumed (utf8_next bs)" by (rule utf8_next_consumes)
    show ?thesis
    proof (cases "utf8_next bs")
      case (Decoded cp n)
      with pos have n: "0 < n" by (simp add: consumed_def)
      from less.prems False Decoded have
        "bytes_decode Strict (drop n bs) = Inl e"
        by (subst (asm) bytes_decode.simps) (auto split: sum.splits)
      moreover from n False have "length (drop n bs) < length bs" by simp
      ultimately obtain s' where "bytes_decode Replace (drop n bs) = Inr s'" "0xFFFD \<in> set s'"
        using less.hyps by blast
      with False Decoded show ?thesis
        by (subst bytes_decode.simps) simp
    next
      case (Malformed n)
      obtain s' where "bytes_decode Replace (drop n bs) = Inr s'"
        using bytes_decode_replace_total [of Replace "drop n bs"] by blast
      with False Malformed show ?thesis
        by (subst bytes_decode.simps) simp
    qed
  qed
qed


lemma convert_value_total:
  "\<exists>v'. convert_value v = Inr v' \<and>
     (case v of
        PyBytes b \<Rightarrow> \<exists>s. bytes_decode Replace b = Inr s \<and> v' = PyStr s
      | PyByteArray b \<Rightarrow> \<exists>s. bytes_decode Replace b = Inr s \<and> v' = PyStr s
      | _ \<Rightarrow> v' = v)"
proof (cases v)
  case (PyBytes b)
  with bytes_decode_replace_total [of Replace b] show ?thesis
    by (auto simp: convert_value_def)
next
  case (PyByteArray b)
  with bytes_decode_replace_total [of Replace b] show ?thesis
    by (auto simp: convert_value_def)
qed (simp_all add: convert_value_def)

lemma convert_row_total:
  "\<exists>r'. convert_row r = Inr r' \<and> length r' = length r \<and>
     (\<forall>i<length r. convert_value (r ! i) = Inr (r' ! i))"
proof (induction r)
  case Nil
  show ?case by simp
next
  case (Cons v r)
  then obtain r' where r': "convert_row r = Inr r'" "length r' = length r"
    "\<forall>i<length r. convert_value (r ! i) = Inr (r' ! i)" by blast
  obtain v' where v': "convert_value v = Inr v'"
    using convert_value_total [of v] by blast
  have "\<forall>i<length (v # r). convert_value ((v # r) ! i) = Inr ((v' # r') ! i)"
  proof (intro allI impI)
    fix i assume "i < length (v # r)"
    then show "convert_value ((v # r) ! i) = Inr ((v' # r') ! i)"
      using v' r'(3) by (cases i) simp_all
  qed
  with r' v' show ?case by simp
qed

lemma convert_rows_total:
  "\<exists>batch. convert_rows rows = Inr batch \<and> length batch = length rows"
proof (induction rows)
  case Nil
  show ?case by simp
next
  case (Cons r rows)
  moreover obtain r' where "convert_row r = Inr r'"
    using convert_row_total [of r] by blast
  ultimately show ?case by auto
qed

text \<open>
  Claim C10. The conversion of a fetched row never raises and keeps the length of the
  row. A \<^verbatim>\<open>bytes\<close> or \<^verbatim>\<open>bytearray\<close> value becomes the text that the replacing decoder
  gives for it; every other value is passed through unchanged. The replacing decoder
  returns a text for every byte sequence: the text of the strict decoder where that one
  succeeds, and a text with the replacement character U+FFFD where that one raises.
\<close>

theorem convert_row_replaces_bytes:
  "(\<exists>r'. convert_row r = Inr r' \<and> length r' = length r \<and>
      (\<forall>i<length r.
         case r ! i of
           PyBytes b \<Rightarrow> \<exists>s. bytes_decode Replace b = Inr s \<and> r' ! i = PyStr s
         | PyByteArray b \<Rightarrow> \<exists>s. bytes_decode Replace b = Inr s \<and> r' ! i = PyStr s
         | v \<Rightarrow> r' ! i = v)) \<and>
   (\<exists>s. bytes_decode Replace bs = Inr s \<and>
      (\<forall>t. bytes_decode Strict bs = Inr t \<longrightarrow> s = t) \<and>
      (\<forall>e. bytes_decode Strict bs = Inl e \<longrightarrow> 0xFFFD \<in> set s))"
proof
  obtain r' where r': "convert_row r = Inr r'" "length r' = length r"
    "\<forall>i<length r. convert_value (r ! i) = Inr (r' ! i)"
    using convert_row_total [of r] by blast
  have "case r ! i of
          PyBytes b \<Rightarrow> \<exists>s. bytes_decode Replace b = Inr s \<and> r' ! i = PyStr s
        | PyByteArray b \<Rightarrow> \<exists>s. bytes_decode Replace b = Inr s \<and> r' ! i = PyStr s
        | v \<Rightarrow> r' ! i = v" if "i < length r" for i
  proof -
    from that r'(3) have "convert_value (r ! i) = Inr (r' ! i)" by simp
    with convert_value_total [of "r ! i"] show ?thesis
      by (auto split: pyval.splits)
  qed
  with r'(1,2) show "\<exists>r'. convert_row r = Inr r' \<and> length r' = length r \<and>
      (\<forall>i<length r.
         case r ! i of
           PyBytes b \<Rightarrow> \<exists>s. bytes_decode Replace b = Inr s \<and> r' ! i = PyStr s
         | PyByteArray b \<Rightarrow> \<exists>s. bytes_decode Replace b = Inr s \<and> r' ! i = PyStr s
         | v \<Rightarrow> r' ! i = v)"
    by blast
next
  obtain s where s: "bytes_decode Replace bs = Inr s"
    using bytes_decode_replace_total [of Replace bs] by blast
  have "s = t" if "bytes_decode Strict bs = Inr t" for t
    using bytes_decode_strict_replace [OF that] s by simp
  moreover have "0xFFFD \<in> set s" if "bytes_decode Strict bs = Inl e" for e
    using bytes_decode_strict_fails [OF that] s by auto
  ultimately show "\<exists>s. bytes_decode Replace bs = Inr s \<and>
      (\<forall>t. bytes_decode Strict bs = Inr t \<longrightarrow> s = t) \<and>
      (\<forall>e. bytes_decode Strict bs = Inl e \<longrightarrow> 0xFFFD \<in> set s)"
    using s by blast
qed

theorem convert_row_replaces_bytes_witness:
  "convert_row [PyInt 5, PyBytes [0x41, 0xFF, 0xC3, 0xA9], PyByteArray [0xE2, 0x82], PyNone]
     = Inr [PyInt 5, PyStr [0x41, 0xFFFD, 0xE9], PyStr [0xFFFD], PyNone] \<and>
   bytes_decode Strict [0x41, 0xFF, 0xC3, 0xA9] = Inl UnicodeDecodeError \<and>
   bytes_decode Replace [0x41, 0xFF, 0xC3, 0xA9] = Inr [0x41, 0xFFFD, 0xE9] \<and>
   bytes_decode Strict [0xC3, 0xA9] = Inr [0xE9] \<and>
   bytes_decode Replace [0xC3, 0xA9] = Inr [0xE9]"
  using convert_row_replaces_bytes
    [of "[PyInt 5, PyBytes [0x41, 0xFF, 0xC3, 0xA9], PyByteArray [0xE2, 0x82], PyNone]"
        "[0x41, 0xFF, 0xC3, 0xA9]"]
  by (simp add: convert_value_def bytes_decode.simps is_continuation_def cont_bits_def)

subsection \<open>The destination table after \<^verbatim>\<open>recreate_sqlite_table\<close>\<close>

lemma emit_simps [simp]:
  "mysql (emit ev s) = mysql s" "sqlite (emit ev s) = sqlite s" "trace (emit ev s) = trace s @ [ev]"
  by (simp_all add: emit_def)

lemma convert_value_eq: "convert_value v = Inr (text_value v)"
  using convert_value_total [of v]
  by (auto simp: text_value_def replace_decode_def split: pyval.splits)

lemma convert_row_eq: "convert_row r = Inr (map text_value r)"
  by (induction r) (simp_all add: convert_value_eq)

lemma convert_rows_eq: "convert_rows rows = Inr (map (map text_value) rows)"
  by (induction rows) (simp_all add: convert_row_eq)

lemma sq_accepts_facts:
  "sq_accepts s n \<Longrightarrow> i < n \<Longrightarrow> \<not> sq_fault (sqlite s) (sq_ops (sqlite s) + i)"
  by (simp add: sq_accepts_def)

lemma sq_accepts_shift:
  "sq_accepts s (k + n) \<Longrightarrow> sq_fault (sqlite s') = sq_fault (sqlite s) \<Longrightarrow>
   sq_ops (sqlite s') = sq_ops (sqlite s) + k \<Longrightarrow> sq_accepts s' n"
  by (simp add: sq_accepts_def add.assoc)

lemma sq_accepts_mono: "sq_accepts s n \<Longrightarrow> m \<le> n \<Longrightarrow> sq_accepts s m"
  by (simp add: sq_accepts_def)

lemma recreate_ok:
  assumes "sq_accepts s 5"
  shows "\<exists>s'. recreate_sqlite_table table columns s = (Inr (), s') \<and>
           mysql s' = mysql s \<and>
           sq_fault (sqlite s') = sq_fault (sqlite s) \<and>
           sq_ops (sqlite s') = sq_ops (sqlite s) + 5 \<and>
           sq_txn (sqlite s') = None \<and>
           sq_disk (sqlite s') = (sq_view (sqlite s))(table \<mapsto> empty_table columns) \<and>
           trace s' = trace s @
             [SqExecute (Pragma ''foreign_keys = OFF''), SqCommit,
              SqExecute (DropTableIfExists table),
              SqExecute (CreateTable table (col_defs columns)), SqCommit]"
proof -
  let ?n = "sq_ops (sqlite s)" and ?f = "sq_fault (sqlite s)"
  from sq_accepts_facts [OF assms, of 0] sq_accepts_facts [OF assms, of 1]
    sq_accepts_facts [OF assms, of 2] sq_accepts_facts [OF assms, of 3]
    sq_accepts_facts [OF assms, of 4]
  have "\<not> ?f ?n" "\<not> ?f (Suc ?n)" "\<not> ?f (Suc (Suc ?n))" "\<not> ?f (Suc (Suc (Suc ?n)))"
    "\<not> ?f (Suc (Suc (Suc (Suc ?n))))"
    by (simp_all add: numeral_eq_Suc)
  then show ?thesis
    by (simp add: recreate_sqlite_table_def sq_execute_def sq_commit_def sq_send_def
        sq_write_ddl_def sq_view_def Let_def empty_table_def split: option.splits)
qed

text \<open>
  Claim C9. When the destination accepts its statements, \<^verbatim>\<open>recreate_sqlite_table\<close>
  succeeds whether or not the table existed: it drops the table if present, then creates
  it, and leaves one table of that name, with one \<^verbatim>\<open>TEXT\<close> column per entry of the
  column list, in the order of the list, and no rows. A second call with the same
  arguments succeeds too and leaves the same database.
\<close>

theorem recreate_sqlite_table_idempotent:
  assumes "sq_accepts s 10"
  shows "\<exists>s1 s2.
    recreate_sqlite_table table columns s = (Inr (), s1) \<and>
    trace s1 = trace s @
      [SqExecute (Pragma ''foreign_keys = OFF''), SqCommit,
       SqExecute (DropTableIfExists table),
       SqExecute (CreateTable table (col_defs columns)), SqCommit] \<and>
    sq_txn (sqlite s1) = None \<and>
    sq_disk (sqlite s1) = (sq_view (sqlite s))(table \<mapsto> empty_table columns) \<and>
    map fst (sq_columns (empty_table columns)) = columns \<and>
    map snd (sq_columns (empty_table columns)) = replicate (length columns) ''TEXT'' \<and>
    sq_rows (empty_table columns) = [] \<and>
    recreate_sqlite_table table columns s1 = (Inr (), s2) \<and>
    sq_txn (sqlite s2) = None \<and>
    sq_disk (sqlite s2) = sq_disk (sqlite s1)"
proof -
  from assms have "sq_accepts s 5" by (rule sq_accepts_mono) simp
  from recreate_ok [OF this, of table columns] obtain s1 where s1:
    "recreate_sqlite_table table columns s = (Inr (), s1)"
    "sq_fault (sqlite s1) = sq_fault (sqlite s)"
    "sq_ops (sqlite s1) = sq_ops (sqlite s) + 5"
    "sq_txn (sqlite s1) = None"
    "sq_disk (sqlite s1) = (sq_view (sqlite s))(table \<mapsto> empty_table columns)"
    "trace s1 = trace s @
      [SqExecute (Pragma ''foreign_keys = OFF''), SqCommit,
       SqExecute (DropTableIfExists table),
       SqExecute (CreateTable table (col_defs columns)), SqCommit]"
    by blast
  from assms s1(2,3) have "sq_accepts s1 5"
    by (intro sq_accepts_shift [of s 5 5 s1]) simp_all
  from recreate_ok [OF this, of table columns] obtain s2 where s2:
    "recreate_sqlite_table table columns s1 = (Inr (), s2)"
    "sq_txn (sqlite s2) = None"
    "sq_disk (sqlite s2) = (sq_view (sqlite s1))(table \<mapsto> empty_table columns)"
    by blast
  from s1(4,5) s2(3) have "sq_disk (sqlite s2) = sq_disk (sqlite s1)"
    by (simp add: sq_view_def)
  moreover have "map fst (sq_columns (empty_table columns)) = columns"
    "map snd (sq_columns (empty_table columns)) = replicate (length columns) ''TEXT''"
    "sq_rows (empty_table columns) = []"
    by (simp_all add: empty_table_def col_defs_def comp_def map_replicate_const)
  ultimately show ?thesis using s1 s2 by blast
qed

theorem recreate_sqlite_table_idempotent_witness:
  "sq_accepts demo_state 10 \<and>
   (\<exists>s1 s2.
      recreate_sqlite_table ''contacts'' [''id'', ''email''] demo_state = (Inr (), s1) \<and>
      sq_disk (sqlite s1) ''contacts'' = Some \<lparr>sq_columns = [(''id'', ''TEXT''), (''email'', ''TEXT'')], sq_rows = []\<rparr> \<and>
      recreate_sqlite_table ''contacts'' [''id'', ''email''] s1 = (Inr (), s2) \<and>
      sq_disk (sqlite s2) = sq_disk (sqlite s1)) \<and>
   (\<exists>s1 s2.
      recreate_sqlite_table ''fresh'' [''a''] demo_state = (Inr (), s1) \<and>
      sq_disk (sqlite demo_state) ''fresh'' = None \<and>
      sq_disk (sqlite s1) ''fresh'' = Some \<lparr>sq_columns = [(''a'', ''TEXT'')], sq_rows = []\<rparr> \<and>
      recreate_sqlite_table ''fresh'' [''a''] s1 = (Inr (), s2) \<and>
      sq_disk (sqlite s2) = sq_disk (sqlite s1))"
proof -
  have a: "sq_accepts demo_state 10"
    by (simp add: sq_accepts_def demo_state_def demo_dest_def)
  from recreate_sqlite_table_idempotent [OF a, of "''contacts''" "[''id'', ''email'']"]
    recreate_sqlite_table_idempotent [OF a, of "''fresh''" "[''a'']"]
  show ?thesis using a
    by (auto simp: empty_table_def col_defs_def sq_view_def demo_state_def demo_dest_def)
qed

subsection \<open>The columns to export\<close>

lemma count_list_filter:
  "count_list (filter P xs) c = (if P c then count_list xs c else 0)"
  by (induction xs) auto

lemma my_accepts_facts:
  "my_accepts s n \<Longrightarrow> i < n \<Longrightarrow> \<not> my_fault (mysql s) (my_ops (mysql s) + i)"
  by (simp add: my_accepts_def)

lemma show_columns_ok:
  assumes "\<not> my_fault (mysql s) (my_ops (mysql s))" and "my_tables (mysql s) table = Some tb"
  shows "show_columns table s =
    (Inr (t_columns tb),
     s\<lparr>mysql := (mysql s)\<lparr>my_ops := Suc (my_ops (mysql s))\<rparr>,
       trace := trace s @ [MyExecute (ShowColumns table)]\<rparr>)"
  using assms by (simp add: show_columns_def my_send_def emit_def Let_def)

text \<open>
  Claim C2. When the server answers \<^verbatim>\<open>SHOW COLUMNS\<close> for the table,
  \<^verbatim>\<open>get_table_columns\<close> returns without an error. For a table with a list in
  \<^verbatim>\<open>TABLE_FIELDS\<close> the result is the list with the entries that are no column of the
  table left out: a subsequence of the list, made of exactly the entries that are
  columns of the table, each as often as the list has it. For a table without a list
  the result is the columns of the table, unchanged.
\<close>

theorem get_table_columns_resolution:
  assumes "my_accepts s 1" and "my_tables (mysql s) table = Some tb"
  shows "\<exists>s' columns.
    get_table_columns cfg table s = (Inr columns, s') \<and>
    trace s' = trace s @ [MyExecute (ShowColumns table)] \<and>
    (case TABLE_FIELDS cfg table of
       Some allowed \<Rightarrow>
         columns = filter (\<lambda>c. c \<in> set (t_columns tb)) allowed \<and>
         subseq columns allowed \<and>
         set columns = set allowed \<inter> set (t_columns tb) \<and>
         (\<forall>c. count_list columns c = (if c \<in> set (t_columns tb) then count_list allowed c else 0))
     | None \<Rightarrow> columns = t_columns tb)"
proof -
  from my_accepts_facts [OF assms(1), of 0]
  have "\<not> my_fault (mysql s) (my_ops (mysql s))" by simp
  from show_columns_ok [OF this assms(2)] show ?thesis
    by (auto simp: get_table_columns_def export_columns_def count_list_filter
        split: option.splits)
qed


theorem get_table_columns_resolution_witness:
  "my_accepts demo_state 1 \<and>
   fst (get_table_columns demo_config ''contacts'' demo_state) = Inr [''email'', ''id''] \<and>
   fst (get_table_columns demo_config ''remove_contacts'' demo_state)
     = Inr [''id'', ''removed_by_user_id'']"
proof -
  have a: "my_accepts demo_state 1"
    by (simp add: my_accepts_def demo_state_def demo_source_def)
  have b: "my_tables (mysql demo_state) ''contacts''
      = Some \<lparr> t_columns = [''id'', ''name'', ''email''],
             t_rows = [[PyInt 1, PyStr [0x41], PyBytes [0x61, 0xFF]],
                       [PyInt 2, PyStr [0x42], PyNone],
                       [PyInt 3, PyStr [0x43], PyBytes [0x63]],
                       [PyInt 4, PyStr [0x44], PyNone],
                       [PyInt 5, PyStr [0x45], PyNone]] \<rparr>"
    by (simp add: demo_state_def demo_source_def)
  have c: "my_tables (mysql demo_state) ''remove_contacts''
      = Some \<lparr> t_columns = [''id'', ''removed_by_user_id''],
             t_rows = [[PyInt 1, PyInt 106], [PyInt 2, PyInt 7], [PyInt 3, PyInt 109],
                       [PyInt 4, PyInt 8], [PyInt 5, PyInt 9]] \<rparr>"
    by (simp add: demo_state_def demo_source_def)
  have f1: "TABLE_FIELDS demo_config ''contacts'' = Some [''email'', ''ghost'', ''id'']"
    and f2: "TABLE_FIELDS demo_config ''remove_contacts'' = None"
    by (simp_all add: demo_config_def source_config_def)
  from get_table_columns_resolution [OF a b, of demo_config] obtain s1 c1 where
    "get_table_columns demo_config ''contacts'' demo_state = (Inr c1, s1)"
    "c1 = filter (\<lambda>c. c \<in> set [''id'', ''name'', ''email'']) [''email'', ''ghost'', ''id'']"
    unfolding f1 by auto
  moreover from get_table_columns_resolution [OF a c, of demo_config] obtain s2 c2 where
    "get_table_columns demo_config ''remove_contacts'' demo_state = (Inr c2, s2)"
    "c2 = [''id'', ''removed_by_user_id'']"
    unfolding f2 by auto
  ultimately show ?thesis using a by simp
qed

subsection \<open>The steps of \<^verbatim>\<open>export_table\<close>\<close>

lemma fetch_table_count_ok:
  assumes "\<not> my_fault (mysql s) (my_ops (mysql s))" and "my_tables (mysql s) table = Some tb"
  shows "fetch_table_count table s =
    (Inr (length (t_rows tb)),
     s\<lparr>mysql := (mysql s)\<lparr>my_ops := Suc (my_ops (mysql s))\<rparr>,
       trace := trace s @ [MyExecute (SelectCount table)]\<rparr>)"
  using assms by (simp add: fetch_table_count_def my_send_def emit_def Let_def)

lemma fetch_table_count_rejected:
  assumes "my_fault (mysql s) (my_ops (mysql s))"
  shows "fetch_table_count table s =
    (Inl (MySQLError ''statement rejected''),
     s\<lparr>mysql := (mysql s)\<lparr>my_ops := Suc (my_ops (mysql s))\<rparr>,
       trace := trace s @ [MyExecute (SelectCount table)]\<rparr>)"
  using assms by (simp add: fetch_table_count_def my_send_def emit_def Let_def)

lemma get_table_columns_ok:
  assumes "\<not> my_fault (mysql s) (my_ops (mysql s))" and "my_tables (mysql s) table = Some tb"
  shows "get_table_columns cfg table s =
    (Inr (export_columns cfg table (t_columns tb)),
     s\<lparr>mysql := (mysql s)\<lparr>my_ops := Suc (my_ops (mysql s))\<rparr>,
       trace := trace s @ [MyExecute (ShowColumns table)]\<rparr>)"
  using show_columns_ok [OF assms] by (simp add: get_table_columns_def)

lemma export_columns_subset: "set (export_columns cfg table cols) \<subseteq> set cols"
  by (auto simp: export_columns_def split: option.splits)

lemma select_rows_ops [simp]: "select_rows (c\<lparr>my_ops := n\<rparr>) tb columns p = select_rows c tb columns p"
  by (cases p) (simp_all add: select_rows_def)

lemma execute_select_ok:
  assumes "\<not> my_fault (mysql s) (my_ops (mysql s))" and "my_tables (mysql s) table = Some tb"
    and "set columns \<subseteq> set (t_columns tb)"
  shows "execute_select columns table p s =
    (Inr (select_rows (mysql s) tb columns p),
     s\<lparr>mysql := (mysql s)\<lparr>my_ops := Suc (my_ops (mysql s))\<rparr>,
       trace := trace s @ [MyExecute (Select columns table p)]\<rparr>)"
  using assms by (simp add: execute_select_def my_send_def emit_def Let_def)

lemma select_rows_length: "r \<in> set (select_rows c tb columns p) \<Longrightarrow> length r = length columns"
  by (auto simp: select_rows_def)

lemma upt_filter_step:
  "[k \<leftarrow> [n + 1 ..< n + Suc m + 1]. P k]
     = (if P (Suc n) then [Suc n] else []) @ [k \<leftarrow> [Suc n + 1 ..< Suc n + m + 1]. P k]"
proof -
  have "[n + 1 ..< n + Suc m + 1] = Suc n # [Suc n + 1 ..< Suc n + m + 1]"
    by (simp add: upt_conv_Cons)
  then show ?thesis by simp
qed

lemma row_updates_step:
  "row_updates table off w total_rows n (Suc m)
     = (if Suc n mod 50 = 0 then [row_update table off w total_rows (Suc n)] else [])
       @ row_updates table off w total_rows (Suc n) m"
  unfolding row_updates_def upt_filter_step by simp

lemma row_updates_0 [simp]: "row_updates table off w total_rows n 0 = []"
  by (simp add: row_updates_def)

lemma progress_callback_apply:
  "progress_callback fraction message s = s\<lparr>trace := trace s @ [Progress fraction message]\<rparr>"
  by (simp add: progress_callback_def emit_def)

lemma update_row_progress_eq:
  "update_row_progress (Some progress_callback) table off w total_rows batch n s =
    (n + length batch, s\<lparr>trace := trace s @ row_updates table off w total_rows n (length batch)\<rparr>)"
proof (induction batch arbitrary: n s)
  case Nil
  show ?case by simp
next
  case (Cons r batch)
  have "update_row_progress (Some progress_callback) table off w total_rows (r # batch) n s =
      update_row_progress (Some progress_callback) table off w total_rows batch (Suc n)
        (if Suc n mod 50 = 0
         then progress_callback (off + w * (real (Suc n) / real total_rows))
                [S table, S '': '', N (Suc n), S ''/'', N total_rows,
                 S '' rows ('', Pct (real (Suc n) / real total_rows * 100), S ''%)''] s
         else s)"
    by (simp add: Let_def del: of_nat_Suc)
  also have "\<dots> = (n + length (r # batch),
      s\<lparr>trace := trace s @ row_updates table off w total_rows n (length (r # batch))\<rparr>)"
    unfolding Cons.IH
    by (simp add: progress_callback_apply row_updates_step row_update_def del: of_nat_Suc)
  finally show ?case .
qed


subsection \<open>The loop over the pages\<close>

lemma pages_Nil [simp]: "pages n [] = []" "pages 0 xs = []"
  by (simp_all add: pages.simps)

lemma pages_Cons:
  "0 < n \<Longrightarrow> xs \<noteq> [] \<Longrightarrow> pages n xs = take n xs # pages n (drop n xs)"
  by (subst pages.simps) simp

lemma pages_empty_iff: "pages n xs = [] \<longleftrightarrow> n = 0 \<or> xs = []"
  by (subst pages.simps) simp

lemma pages_map: "pages n (map f xs) = map (map f) (pages n xs)"
proof (induction n xs rule: pages.induct)
  case (1 n xs)
  show ?case
  proof (cases "n = 0 \<or> xs = []")
    case True
    then show ?thesis by auto
  next
    case False
    with "1.IH" show ?thesis
      by (simp add: pages_Cons take_map drop_map)
  qed
qed

lemma concat_pages: "0 < n \<Longrightarrow> concat (pages n xs) = xs"
proof (induction n xs rule: pages.induct)
  case (1 n xs)
  show ?case
  proof (cases "xs = []")
    case True
    then show ?thesis by simp
  next
    case False
    with 1 show ?thesis by (simp add: pages_Cons)
  qed
qed

lemma stored_row_rows [simp]: "stored_row (tb\<lparr>sq_rows := rs\<rparr>) columns = stored_row tb columns"
  by (rule ext) (simp add: stored_row_def)

lemma sq_executemany_ok:
  assumes "\<not> sq_fault (sqlite s) (sq_ops (sqlite s))"
    and "sq_txn (sqlite s) = None" and "sq_disk (sqlite s) table = Some tb"
    and "set columns \<subseteq> fst ` set (sq_columns tb)"
    and "\<forall>r\<in>set batch. length r = length columns"
  shows "sq_executemany table columns batch s =
    (Inr (),
     s\<lparr>sqlite := (sqlite s)\<lparr>sq_ops := Suc (sq_ops (sqlite s)),
          sq_txn := Some ((sq_disk (sqlite s))
            (table \<mapsto> tb\<lparr>sq_rows := sq_rows tb @ map (stored_row tb columns) batch\<rparr>))\<rparr>,
       trace := trace s @ [SqExecuteMany table columns batch]\<rparr>)"
  using assms by (simp add: sq_executemany_def sq_send_def emit_def Let_def sq_view_def)

lemma sq_executemany_rejected:
  assumes "sq_fault (sqlite s) (sq_ops (sqlite s))"
  shows "sq_executemany table columns batch s =
    (Inl (SQLiteError ''statement rejected''),
     s\<lparr>sqlite := (sqlite s)\<lparr>sq_ops := Suc (sq_ops (sqlite s))\<rparr>,
       trace := trace s @ [SqExecuteMany table columns batch]\<rparr>)"
  using assms by (simp add: sq_executemany_def sq_send_def emit_def Let_def)

lemma sq_commit_ok:
  assumes "\<not> sq_fault (sqlite s) (sq_ops (sqlite s))"
  shows "sq_commit s =
    (Inr (),
     s\<lparr>sqlite := (sqlite s)\<lparr>sq_ops := Suc (sq_ops (sqlite s)),
          sq_disk := sq_view (sqlite s), sq_txn := None\<rparr>,
       trace := trace s @ [SqCommit]\<rparr>)"
  using assms
  by (cases "sq_txn (sqlite s)") (simp_all add: sq_commit_def sq_send_def emit_def Let_def sq_view_def)

lemma sq_commit_rejected:
  assumes "sq_fault (sqlite s) (sq_ops (sqlite s))"
  shows "sq_commit s =
    (Inl (SQLiteError ''commit rejected''),
     s\<lparr>sqlite := (sqlite s)\<lparr>sq_ops := Suc (sq_ops (sqlite s))\<rparr>,
       trace := trace s @ [SqCommit]\<rparr>)"
  using assms by (simp add: sq_commit_def sq_send_def emit_def Let_def)

lemma export_pages_step:
  assumes page: "take (CHUNK_SIZE cfg) buffer \<noteq> []"
    and ok: "\<not> sq_fault (sqlite s) (sq_ops (sqlite s))"
      "\<not> sq_fault (sqlite s) (Suc (sq_ops (sqlite s)))"
    and pre: "sq_txn (sqlite s) = None" "sq_disk (sqlite s) table = Some tb"
      "set columns \<subseteq> fst ` set (sq_columns tb)"
      "\<forall>r\<in>set buffer. length r = length columns"
  shows "export_pages cfg table columns (Some progress_callback) off w total_rows buffer n s =
    export_pages cfg table columns (Some progress_callback) off w total_rows
      (drop (CHUNK_SIZE cfg) buffer) (n + length (take (CHUNK_SIZE cfg) buffer))
      (after_page (CHUNK_SIZE cfg) table columns off w total_rows n tb
         (map (map text_value) (take (CHUNK_SIZE cfg) buffer)) s)"
proof -
  let ?page = "take (CHUNK_SIZE cfg) buffer"
  let ?batch = "map (map text_value) ?page"
  define s0 where "s0 = emit (MyFetchMany (CHUNK_SIZE cfg) (length ?page)) s"
  define s1 where "s1 =
     s0\<lparr>sqlite := (sqlite s0)\<lparr>sq_ops := Suc (sq_ops (sqlite s0)),
          sq_txn := Some ((sq_disk (sqlite s0))
            (table \<mapsto> tb\<lparr>sq_rows := sq_rows tb @ map (stored_row tb columns) ?batch\<rparr>))\<rparr>,
       trace := trace s0 @ [SqExecuteMany table columns ?batch]\<rparr>"
  define s2 where "s2 =
     s1\<lparr>sqlite := (sqlite s1)\<lparr>sq_ops := Suc (sq_ops (sqlite s1)),
          sq_disk := sq_view (sqlite s1), sq_txn := None\<rparr>,
       trace := trace s1 @ [SqCommit]\<rparr>"
  define s3 where "s3 = s2\<lparr>trace := trace s2 @ row_updates table off w total_rows n (length ?batch)\<rparr>"
  have len: "\<forall>r\<in>set ?batch. length r = length columns"
    using pre(4) by (auto dest: in_set_takeD)
  have ins: "sq_executemany table columns ?batch s0 = (Inr (), s1)"
    unfolding s1_def
    by (rule sq_executemany_ok) (use ok pre len in \<open>simp_all add: s0_def\<close>)
  have com: "sq_commit s1 = (Inr (), s2)"
    unfolding s2_def
    by (rule sq_commit_ok) (use ok in \<open>simp add: s1_def s0_def\<close>)
  have upd: "update_row_progress (Some progress_callback) table off w total_rows ?batch n s2
      = (n + length ?batch, s3)"
    unfolding s3_def by (rule update_row_progress_eq)
  have s3: "s3 = after_page (CHUNK_SIZE cfg) table columns off w total_rows n tb ?batch s"
    by (simp add: s3_def s2_def s1_def s0_def after_page_def sq_view_def emit_def)
  have "export_pages cfg table columns (Some progress_callback) off w total_rows buffer n s =
    export_pages cfg table columns (Some progress_callback) off w total_rows
      (drop (CHUNK_SIZE cfg) buffer) (n + length ?batch) s3"
    by (subst export_pages.simps)
      (simp only: Let_def page if_False convert_rows_eq sum.case ins com upd prod.case
        s0_def [symmetric])
  then show ?thesis by (simp add: s3)
qed

lemma after_page_simps [simp]:
  "mysql (after_page chunk table columns off w total_rows n tb batch s) = mysql s"
  "sq_fault (sqlite (after_page chunk table columns off w total_rows n tb batch s)) = sq_fault (sqlite s)"
  "sq_ops (sqlite (after_page chunk table columns off w total_rows n tb batch s)) = Suc (Suc (sq_ops (sqlite s)))"
  "sq_txn (sqlite (after_page chunk table columns off w total_rows n tb batch s)) = None"
  "sq_disk (sqlite (after_page chunk table columns off w total_rows n tb batch s)) =
     (sq_disk (sqlite s))(table \<mapsto> tb\<lparr>sq_rows := sq_rows tb @ map (stored_row tb columns) batch\<rparr>)"
  "trace (after_page chunk table columns off w total_rows n tb batch s) =
     trace s @ [MyFetchMany chunk (length batch), SqExecuteMany table columns batch, SqCommit]
             @ row_updates table off w total_rows n (length batch)"
  by (simp_all add: after_page_def)

lemma export_pages_done:
  assumes "take (CHUNK_SIZE cfg) buffer = []"
  shows "export_pages cfg table columns cb off w total_rows buffer n s =
    (Inr (), emit (MyFetchMany (CHUNK_SIZE cfg) 0) s)"
  by (subst export_pages.simps) (simp only: Let_def assms if_True list.size simp_thms)

lemma export_pages_ok:
  assumes "sq_accepts s (2 * length (pages (CHUNK_SIZE cfg) buffer))"
    and "sq_txn (sqlite s) = None" and "sq_disk (sqlite s) table = Some tb"
    and "set columns \<subseteq> fst ` set (sq_columns tb)"
    and "\<forall>r\<in>set buffer. length r = length columns"
  shows "\<exists>s'. export_pages cfg table columns (Some progress_callback) off w total_rows buffer n s
             = (Inr (), s') \<and>
           mysql s' = mysql s \<and>
           sq_fault (sqlite s') = sq_fault (sqlite s) \<and>
           sq_ops (sqlite s') = sq_ops (sqlite s) + 2 * length (pages (CHUNK_SIZE cfg) buffer) \<and>
           sq_txn (sqlite s') = None \<and>
           sq_disk (sqlite s') = (sq_disk (sqlite s))
             (table \<mapsto> tb\<lparr>sq_rows := sq_rows tb @ map (stored_row tb columns)
                (concat (pages (CHUNK_SIZE cfg) (map (map text_value) buffer)))\<rparr>) \<and>
           trace s' = trace s
             @ page_blocks (CHUNK_SIZE cfg) table columns off w total_rows n
                 (pages (CHUNK_SIZE cfg) (map (map text_value) buffer))
             @ [MyFetchMany (CHUNK_SIZE cfg) 0]"
  using assms
proof (induction "length buffer" arbitrary: buffer n s tb rule: less_induct)
  case less
  let ?c = "CHUNK_SIZE cfg"
  show ?case
  proof (cases "take ?c buffer = []")
    case True
    then have "pages ?c buffer = []" "pages ?c (map (map text_value) buffer) = []"
      by (auto simp: pages_empty_iff)
    moreover from less.prems(3) have "(sq_disk (sqlite s))(table \<mapsto> tb) = sq_disk (sqlite s)"
      by (simp add: map_upd_triv)
    ultimately show ?thesis
      using less.prems(2) by (simp add: export_pages_done [OF True])
  next
    case False
    then have c: "0 < ?c" and ne: "buffer \<noteq> []" by auto
    let ?page = "take ?c buffer" and ?rest = "drop ?c buffer"
    let ?batch = "map (map text_value) ?page"
    let ?tb' = "tb\<lparr>sq_rows := sq_rows tb @ map (stored_row tb columns) ?batch\<rparr>"
    let ?s3 = "after_page ?c table columns off w total_rows n tb ?batch s"
    have pg: "pages ?c buffer = ?page # pages ?c ?rest"
      using c ne by (rule pages_Cons)
    have pg': "pages ?c (map (map text_value) buffer) = ?batch # pages ?c (map (map text_value) ?rest)"
      using c ne by (simp add: pages_Cons take_map drop_map)
    from less.prems(1) pg have acc: "sq_accepts s (2 + 2 * length (pages ?c ?rest))"
      by simp
    from sq_accepts_facts [OF acc, of 0] sq_accepts_facts [OF acc, of 1]
    have ok: "\<not> sq_fault (sqlite s) (sq_ops (sqlite s))"
      "\<not> sq_fault (sqlite s) (Suc (sq_ops (sqlite s)))"
      by simp_all
    have step: "export_pages cfg table columns (Some progress_callback) off w total_rows buffer n s =
      export_pages cfg table columns (Some progress_callback) off w total_rows ?rest
        (n + length ?page) ?s3"
      by (rule export_pages_step [OF False ok less.prems(2-5)])
    have shorter: "length ?rest < length buffer"
      using c ne by simp
    have acc': "sq_accepts ?s3 (2 * length (pages ?c ?rest))"
      by (rule sq_accepts_shift [OF acc]) simp_all
    have "\<exists>s'. export_pages cfg table columns (Some progress_callback) off w total_rows ?rest
             (n + length ?page) ?s3 = (Inr (), s') \<and>
           mysql s' = mysql ?s3 \<and>
           sq_fault (sqlite s') = sq_fault (sqlite ?s3) \<and>
           sq_ops (sqlite s') = sq_ops (sqlite ?s3) + 2 * length (pages ?c ?rest) \<and>
           sq_txn (sqlite s') = None \<and>
           sq_disk (sqlite s') = (sq_disk (sqlite ?s3))
             (table \<mapsto> ?tb'\<lparr>sq_rows := sq_rows ?tb' @ map (stored_row ?tb' columns)
                (concat (pages ?c (map (map text_value) ?rest)))\<rparr>) \<and>
           trace s' = trace ?s3
             @ page_blocks ?c table columns off w total_rows (n + length ?page)
                 (pages ?c (map (map text_value) ?rest))
             @ [MyFetchMany ?c 0]"
    proof (rule less.hyps [OF shorter acc'])
      show "sq_txn (sqlite ?s3) = None" by simp
      show "sq_disk (sqlite ?s3) table = Some ?tb'" by simp
      show "set columns \<subseteq> fst ` set (sq_columns ?tb')" using less.prems(4) by simp
      show "\<forall>r\<in>set ?rest. length r = length columns"
        using less.prems(5) by (auto dest: in_set_dropD)
    qed
    then obtain s' where s':
      "export_pages cfg table columns (Some progress_callback) off w total_rows ?rest
             (n + length ?page) ?s3 = (Inr (), s')"
      "mysql s' = mysql ?s3"
      "sq_fault (sqlite s') = sq_fault (sqlite ?s3)"
      "sq_ops (sqlite s') = sq_ops (sqlite ?s3) + 2 * length (pages ?c ?rest)"
      "sq_txn (sqlite s') = None"
      "sq_disk (sqlite s') = (sq_disk (sqlite ?s3))
             (table \<mapsto> ?tb'\<lparr>sq_rows := sq_rows ?tb' @ map (stored_row ?tb' columns)
                (concat (pages ?c (map (map text_value) ?rest)))\<rparr>)"
      "trace s' = trace ?s3
             @ page_blocks ?c table columns off w total_rows (n + length ?page)
                 (pages ?c (map (map text_value) ?rest))
             @ [MyFetchMany ?c 0]"
      by blast
    show ?thesis
      unfolding step pg pg'
      by (rule exI [of _ s']) (simp add: s' del: length_take)
  qed
qed


lemma export_pages_fails:
  assumes "sq_accepts s j" and "sq_fault (sqlite s) (sq_ops (sqlite s) + j)"
    and "j < 2 * length (pages (CHUNK_SIZE cfg) buffer)"
    and "sq_txn (sqlite s) = None" and "sq_disk (sqlite s) table = Some tb"
    and "set columns \<subseteq> fst ` set (sq_columns tb)"
    and "\<forall>r\<in>set buffer. length r = length columns"
  shows "\<exists>s'. export_pages cfg table columns (Some progress_callback) off w total_rows buffer n s
             = (Inl (SQLiteError (if even j then ''statement rejected'' else ''commit rejected'')), s') \<and>
           mysql s' = mysql s \<and>
           sq_disk (sqlite s') = (sq_disk (sqlite s))
             (table \<mapsto> tb\<lparr>sq_rows := sq_rows tb @ map (stored_row tb columns)
                (concat (take (j div 2) (pages (CHUNK_SIZE cfg) (map (map text_value) buffer))))\<rparr>) \<and>
           trace s' = trace s
             @ page_blocks (CHUNK_SIZE cfg) table columns off w total_rows n
                 (take (j div 2) (pages (CHUNK_SIZE cfg) (map (map text_value) buffer)))
             @ failed_page (CHUNK_SIZE cfg) table columns j
                 (pages (CHUNK_SIZE cfg) (map (map text_value) buffer) ! (j div 2))"
  using assms
proof (induction "length buffer" arbitrary: buffer n s tb j rule: less_induct)
  case less
  let ?c = "CHUNK_SIZE cfg"
  from less.prems(3) have "pages ?c buffer \<noteq> []" by auto
  then have c: "0 < ?c" and ne: "buffer \<noteq> []"
    by (simp_all add: pages_empty_iff)
  then have page: "take ?c buffer \<noteq> []" by simp
  let ?page = "take ?c buffer" and ?rest = "drop ?c buffer"
  let ?batch = "map (map text_value) ?page"
  let ?tb' = "tb\<lparr>sq_rows := sq_rows tb @ map (stored_row tb columns) ?batch\<rparr>"
  let ?s0 = "emit (MyFetchMany ?c (length ?page)) s"
  have pg: "pages ?c buffer = ?page # pages ?c ?rest"
    using c ne by (rule pages_Cons)
  have pg': "pages ?c (map (map text_value) buffer) = ?batch # pages ?c (map (map text_value) ?rest)"
    using c ne by (simp add: pages_Cons take_map drop_map)
  have len: "\<forall>r\<in>set ?batch. length r = length columns"
    using less.prems(7) by (auto dest: in_set_takeD)
  have same: "(sq_disk (sqlite s))(table \<mapsto> tb) = sq_disk (sqlite s)"
    using less.prems(5) by (simp add: map_upd_triv)
  consider (insert) "j = 0" | (commit) "j = 1" | (later) "2 \<le> j" by linarith
  then show ?case
  proof cases
    case insert
    with less.prems(2) have "sq_fault (sqlite ?s0) (sq_ops (sqlite ?s0))" by simp
    from sq_executemany_rejected [OF this, of table columns ?batch]
    have "export_pages cfg table columns (Some progress_callback) off w total_rows buffer n s =
      (Inl (SQLiteError ''statement rejected''),
       ?s0\<lparr>sqlite := (sqlite ?s0)\<lparr>sq_ops := Suc (sq_ops (sqlite ?s0))\<rparr>,
         trace := trace ?s0 @ [SqExecuteMany table columns ?batch]\<rparr>)"
      by (subst export_pages.simps)
        (simp only: Let_def page if_False convert_rows_eq sum.case prod.case)
    with insert same show ?thesis
      by (simp add: pg' failed_page_def del: length_take)
  next
    case commit
    with less.prems(1) have ok: "\<not> sq_fault (sqlite ?s0) (sq_ops (sqlite ?s0))"
      using sq_accepts_facts [of s j 0] by simp
    define s1 where "s1 =
       ?s0\<lparr>sqlite := (sqlite ?s0)\<lparr>sq_ops := Suc (sq_ops (sqlite ?s0)),
            sq_txn := Some ((sq_disk (sqlite ?s0))
              (table \<mapsto> tb\<lparr>sq_rows := sq_rows tb @ map (stored_row tb columns) ?batch\<rparr>))\<rparr>,
         trace := trace ?s0 @ [SqExecuteMany table columns ?batch]\<rparr>"
    have ins: "sq_executemany table columns ?batch ?s0 = (Inr (), s1)"
      unfolding s1_def
      by (rule sq_executemany_ok) (use ok less.prems len in simp_all)
    from commit less.prems(2) have "sq_fault (sqlite s1) (sq_ops (sqlite s1))"
      by (simp add: s1_def)
    from sq_commit_rejected [OF this]
    have "export_pages cfg table columns (Some progress_callback) off w total_rows buffer n s =
      (Inl (SQLiteError ''commit rejected''),
       s1\<lparr>sqlite := (sqlite s1)\<lparr>sq_ops := Suc (sq_ops (sqlite s1))\<rparr>,
         trace := trace s1 @ [SqCommit]\<rparr>)"
      by (subst export_pages.simps)
        (simp only: Let_def page if_False convert_rows_eq sum.case prod.case ins)
    with commit same show ?thesis
      by (simp add: pg' failed_page_def s1_def del: length_take)
  next
    case later
    let ?s3 = "after_page ?c table columns off w total_rows n tb ?batch s"
    from later obtain j' where j: "j = 2 + j'" by (auto simp: le_iff_add)
    from less.prems(1) j have acc: "sq_accepts s (2 + j')" by simp
    from sq_accepts_facts [OF acc, of 0] sq_accepts_facts [OF acc, of 1]
    have ok: "\<not> sq_fault (sqlite s) (sq_ops (sqlite s))"
      "\<not> sq_fault (sqlite s) (Suc (sq_ops (sqlite s)))"
      by simp_all
    have step: "export_pages cfg table columns (Some progress_callback) off w total_rows buffer n s =
      export_pages cfg table columns (Some progress_callback) off w total_rows ?rest
        (n + length ?page) ?s3"
      by (rule export_pages_step [OF page ok less.prems(4-7)])
    have shorter: "length ?rest < length buffer"
      using c ne by simp
    have acc': "sq_accepts ?s3 j'"
      by (rule sq_accepts_shift [OF acc]) simp_all
    have "\<exists>s'. export_pages cfg table columns (Some progress_callback) off w total_rows ?rest
             (n + length ?page) ?s3
             = (Inl (SQLiteError (if even j' then ''statement rejected'' else ''commit rejected'')), s') \<and>
           mysql s' = mysql ?s3 \<and>
           sq_disk (sqlite s') = (sq_disk (sqlite ?s3))
             (table \<mapsto> ?tb'\<lparr>sq_rows := sq_rows ?tb' @ map (stored_row ?tb' columns)
                (concat (take (j' div 2) (pages ?c (map (map text_value) ?rest))))\<rparr>) \<and>
           trace s' = trace ?s3
             @ page_blocks ?c table columns off w total_rows (n + length ?page)
                 (take (j' div 2) (pages ?c (map (map text_value) ?rest)))
             @ failed_page ?c table columns j' (pages ?c (map (map text_value) ?rest) ! (j' div 2))"
    proof (rule less.hyps [OF shorter acc'])
      show "sq_fault (sqlite ?s3) (sq_ops (sqlite ?s3) + j')"
        using less.prems(2) j by simp
      show "j' < 2 * length (pages ?c ?rest)"
        using less.prems(3) j pg by simp
      show "sq_txn (sqlite ?s3) = None" by simp
      show "sq_disk (sqlite ?s3) table = Some ?tb'" by simp
      show "set columns \<subseteq> fst ` set (sq_columns ?tb')" using less.prems(6) by simp
      show "\<forall>r\<in>set ?rest. length r = length columns"
        using less.prems(7) by (auto dest: in_set_dropD)
    qed
    then obtain s' where s':
      "export_pages cfg table columns (Some progress_callback) off w total_rows ?rest
             (n + length ?page) ?s3
             = (Inl (SQLiteError (if even j' then ''statement rejected'' else ''commit rejected'')), s')"
      "mysql s' = mysql ?s3"
      "sq_disk (sqlite s') = (sq_disk (sqlite ?s3))
             (table \<mapsto> ?tb'\<lparr>sq_rows := sq_rows ?tb' @ map (stored_row ?tb' columns)
                (concat (take (j' div 2) (pages ?c (map (map text_value) ?rest))))\<rparr>)"
      "trace s' = trace ?s3
             @ page_blocks ?c table columns off w total_rows (n + length ?page)
                 (take (j' div 2) (pages ?c (map (map text_value) ?rest)))
             @ failed_page ?c table columns j' (pages ?c (map (map text_value) ?rest) ! (j' div 2))"
      by blast
    have fp: "failed_page ?c table columns (2 + j') p = failed_page ?c table columns j' p" for p
      by (simp add: failed_page_def)
    have d: "(2 + j') div 2 = Suc (j' div 2)" by simp
    show ?thesis
      unfolding step pg' j d fp
      by (rule exI [of _ s']) (simp add: s' del: length_take)
  qed
qed

subsection \<open>The export of one table\<close>

lemma my_sent_simps [simp]:
  "my_tables (mysql (my_sent qs s)) = my_tables (mysql s)"
  "my_where (mysql (my_sent qs s)) = my_where (mysql s)"
  "my_fault (mysql (my_sent qs s)) = my_fault (mysql s)"
  "my_ops (mysql (my_sent qs s)) = my_ops (mysql s) + length qs"
  "sqlite (my_sent qs s) = sqlite s"
  "trace (my_sent qs s) = trace s @ map MyExecute qs"
  by (simp_all add: my_sent_def)

lemma after_recreate_simps [simp]:
  "mysql (after_recreate table columns s) = mysql s"
  "sq_fault (sqlite (after_recreate table columns s)) = sq_fault (sqlite s)"
  "sq_ops (sqlite (after_recreate table columns s)) = sq_ops (sqlite s) + 5"
  "sq_txn (sqlite (after_recreate table columns s)) = None"
  "sq_disk (sqlite (after_recreate table columns s)) = (sq_view (sqlite s))(table \<mapsto> empty_table columns)"
  "trace (after_recreate table columns s) = trace s @ recreate_events table columns"
  by (simp_all add: after_recreate_def)

lemma progress_callback_simps [simp]:
  "mysql (progress_callback f m s) = mysql s"
  "sqlite (progress_callback f m s) = sqlite s"
  "trace (progress_callback f m s) = trace s @ [Progress f m]"
  by (simp_all add: progress_callback_def)

lemma recreate_eq:
  assumes "sq_accepts s 5"
  shows "recreate_sqlite_table table columns s = (Inr (), after_recreate table columns s)"
proof -
  let ?n = "sq_ops (sqlite s)" and ?f = "sq_fault (sqlite s)"
  from sq_accepts_facts [OF assms, of 0] sq_accepts_facts [OF assms, of 1]
    sq_accepts_facts [OF assms, of 2] sq_accepts_facts [OF assms, of 3]
    sq_accepts_facts [OF assms, of 4]
  have "\<not> ?f ?n" "\<not> ?f (Suc ?n)" "\<not> ?f (Suc (Suc ?n))" "\<not> ?f (Suc (Suc (Suc ?n)))"
    "\<not> ?f (Suc (Suc (Suc (Suc ?n))))"
    by (simp_all add: numeral_eq_Suc)
  then show ?thesis
    by (cases "sq_txn (sqlite s)")
      (simp_all add: recreate_sqlite_table_def sq_execute_def sq_commit_def sq_send_def
        sq_write_ddl_def sq_view_def Let_def after_recreate_def recreate_events_def emit_def
        empty_table_def)
qed

lemma export_table_zero_rows:
  assumes "my_accepts s 2" and "sq_accepts s 5"
    and "my_tables (mysql s) table = Some tb" and "t_rows tb = []"
  shows "export_table cfg table (Some progress_callback) off w s =
    (Inr (),
     progress_callback (off + w) [S table, S '' (0 rows)'']
       (after_recreate table (export_columns cfg table (t_columns tb))
          (my_sent [SelectCount table, ShowColumns table] s)))"
proof -
  from my_accepts_facts [OF assms(1), of 0] my_accepts_facts [OF assms(1), of 1]
  have ok: "\<not> my_fault (mysql s) (my_ops (mysql s))"
    "\<not> my_fault (mysql s) (Suc (my_ops (mysql s)))"
    by simp_all
  let ?s0 = "s\<lparr>mysql := (mysql s)\<lparr>my_ops := Suc (my_ops (mysql s))\<rparr>,
       trace := trace s @ [MyExecute (SelectCount table)]\<rparr>"
  let ?s1 = "my_sent [SelectCount table, ShowColumns table] s"
  have cnt: "fetch_table_count table s = (Inr (length (t_rows tb)), ?s0)"
    by (rule fetch_table_count_ok [OF ok(1) assms(3)])
  have "get_table_columns cfg table ?s0 =
    (Inr (export_columns cfg table (t_columns tb)),
     ?s0\<lparr>mysql := (mysql ?s0)\<lparr>my_ops := Suc (my_ops (mysql ?s0))\<rparr>,
       trace := trace ?s0 @ [MyExecute (ShowColumns table)]\<rparr>)"
    by (rule get_table_columns_ok) (use ok assms(3) in simp_all)
  then have cols: "get_table_columns cfg table ?s0 =
      (Inr (export_columns cfg table (t_columns tb)), ?s1)"
    by (simp add: my_sent_def)
  have "sq_accepts ?s1 5" using assms(2) by (simp add: sq_accepts_def)
  note rec = recreate_eq [OF this, of table "export_columns cfg table (t_columns tb)"]
  show ?thesis
    unfolding export_table_def
    by (simp only: cnt cols rec prod.case sum.case Let_def assms(4) list.size if_True
        option.case simp_thms)
qed


lemma export_table_count_rejected:
  assumes "my_fault (mysql s) (my_ops (mysql s))"
    and "\<not> my_fault (mysql s) (Suc (my_ops (mysql s)))"
    and "sq_accepts s 5" and "my_tables (mysql s) table = Some tb"
  shows "export_table cfg table (Some progress_callback) off w s =
    (Inr (),
     progress_callback (off + w) [S table, S '' (0 rows)'']
       (after_recreate table (export_columns cfg table (t_columns tb))
          (my_sent [SelectCount table, ShowColumns table] s)))"
proof -
  let ?s0 = "s\<lparr>mysql := (mysql s)\<lparr>my_ops := Suc (my_ops (mysql s))\<rparr>,
       trace := trace s @ [MyExecute (SelectCount table)]\<rparr>"
  let ?s1 = "my_sent [SelectCount table, ShowColumns table] s"
  have cnt: "fetch_table_count table s = (Inl (MySQLError ''statement rejected''), ?s0)"
    by (rule fetch_table_count_rejected [OF assms(1)])
  have "get_table_columns cfg table ?s0 =
    (Inr (export_columns cfg table (t_columns tb)),
     ?s0\<lparr>mysql := (mysql ?s0)\<lparr>my_ops := Suc (my_ops (mysql ?s0))\<rparr>,
       trace := trace ?s0 @ [MyExecute (ShowColumns table)]\<rparr>)"
    by (rule get_table_columns_ok) (use assms in simp_all)
  then have cols: "get_table_columns cfg table ?s0 =
      (Inr (export_columns cfg table (t_columns tb)), ?s1)"
    by (simp add: my_sent_def)
  have "sq_accepts ?s1 5" using assms(3) by (simp add: sq_accepts_def)
  note rec = recreate_eq [OF this, of table "export_columns cfg table (t_columns tb)"]
  show ?thesis
    unfolding export_table_def
    by (simp only: cnt cols rec prod.case sum.case Let_def if_True option.case simp_thms)
qed

lemma export_table_rows:
  assumes "my_accepts s 3" and "sq_accepts s 5"
    and "my_tables (mysql s) table = Some tb" and "t_rows tb \<noteq> []"
  shows "export_table cfg table (Some progress_callback) off w s =
    export_pages cfg table (export_columns cfg table (t_columns tb)) (Some progress_callback)
      off w (length (t_rows tb))
      (select_rows (mysql s) tb (export_columns cfg table (t_columns tb)) (TABLE_FILTERS cfg table))
      0
      (my_sent [Select (export_columns cfg table (t_columns tb)) table (TABLE_FILTERS cfg table)]
         (after_recreate table (export_columns cfg table (t_columns tb))
            (my_sent [SelectCount table, ShowColumns table] s)))"
proof -
  from my_accepts_facts [OF assms(1), of 0] my_accepts_facts [OF assms(1), of 1]
    my_accepts_facts [OF assms(1), of 2]
  have ok: "\<not> my_fault (mysql s) (my_ops (mysql s))"
    "\<not> my_fault (mysql s) (Suc (my_ops (mysql s)))"
    "\<not> my_fault (mysql s) (Suc (Suc (my_ops (mysql s))))"
    by (simp_all add: numeral_eq_Suc)
  let ?cols = "export_columns cfg table (t_columns tb)"
  let ?s0 = "s\<lparr>mysql := (mysql s)\<lparr>my_ops := Suc (my_ops (mysql s))\<rparr>,
       trace := trace s @ [MyExecute (SelectCount table)]\<rparr>"
  let ?s1 = "my_sent [SelectCount table, ShowColumns table] s"
  let ?s2 = "after_recreate table ?cols ?s1"
  have cnt: "fetch_table_count table s = (Inr (length (t_rows tb)), ?s0)"
    by (rule fetch_table_count_ok [OF ok(1) assms(3)])
  have "get_table_columns cfg table ?s0 =
    (Inr ?cols,
     ?s0\<lparr>mysql := (mysql ?s0)\<lparr>my_ops := Suc (my_ops (mysql ?s0))\<rparr>,
       trace := trace ?s0 @ [MyExecute (ShowColumns table)]\<rparr>)"
    by (rule get_table_columns_ok) (use ok assms(3) in simp_all)
  then have cols: "get_table_columns cfg table ?s0 = (Inr ?cols, ?s1)"
    by (simp add: my_sent_def)
  have "sq_accepts ?s1 5" using assms(2) by (simp add: sq_accepts_def)
  note rec = recreate_eq [OF this, of table ?cols]
  have "execute_select ?cols table (TABLE_FILTERS cfg table) ?s2 =
    (Inr (select_rows (mysql ?s2) tb ?cols (TABLE_FILTERS cfg table)),
     ?s2\<lparr>mysql := (mysql ?s2)\<lparr>my_ops := Suc (my_ops (mysql ?s2))\<rparr>,
       trace := trace ?s2 @ [MyExecute (Select ?cols table (TABLE_FILTERS cfg table))]\<rparr>)"
    by (rule execute_select_ok) (use ok assms(3) export_columns_subset in simp_all)
  moreover have "select_rows (mysql ?s2) tb ?cols (TABLE_FILTERS cfg table)
      = select_rows (mysql s) tb ?cols (TABLE_FILTERS cfg table)"
    by (simp add: my_sent_def)
  ultimately have sel: "execute_select ?cols table (TABLE_FILTERS cfg table) ?s2 =
    (Inr (select_rows (mysql s) tb ?cols (TABLE_FILTERS cfg table)),
     my_sent [Select ?cols table (TABLE_FILTERS cfg table)] ?s2)"
    by (simp add: my_sent_def [of _ ?s2])
  from assms(4) have pos: "length (t_rows tb) \<noteq> 0" by simp
  show ?thesis
    unfolding export_table_def
    by (simp only: cnt cols rec sel prod.case sum.case Let_def pos if_False)
qed

subsection \<open>A table without rows, and a count that fails\<close>

lemma demo_accepts [simp]: "my_accepts demo_state n" "sq_accepts demo_state n"
  by (simp_all add: my_accepts_def sq_accepts_def demo_state_def demo_source_def demo_dest_def)

lemma demo_tables:
  "my_tables (mysql demo_state) ''contacts''
      = Some \<lparr> t_columns = [''id'', ''name'', ''email''],
             t_rows = [[PyInt 1, PyStr [0x41], PyBytes [0x61, 0xFF]],
                       [PyInt 2, PyStr [0x42], PyNone],
                       [PyInt 3, PyStr [0x43], PyBytes [0x63]],
                       [PyInt 4, PyStr [0x44], PyNone],
                       [PyInt 5, PyStr [0x45], PyNone]] \<rparr>"
  "my_tables (mysql demo_state) ''remove_contacts''
      = Some \<lparr> t_columns = [''id'', ''removed_by_user_id''],
             t_rows = [[PyInt 1, PyInt 106], [PyInt 2, PyInt 7], [PyInt 3, PyInt 109],
                       [PyInt 4, PyInt 8], [PyInt 5, PyInt 9]] \<rparr>"
  "my_tables (mysql demo_state) ''contact_targets''
      = Some \<lparr> t_columns = [''id'', ''target''], t_rows = [] \<rparr>"
  "my_tables (mysql demo_state) ''contact_addresses''
      = Some \<lparr> t_columns = [''id'', ''city''], t_rows = replicate 120 [PyInt 1, PyBytes [0x41]] \<rparr>"
  "my_tables (mysql demo_state) ''upload_processors''
      = Some \<lparr> t_columns = [''id'', ''uploaded_by''],
             t_rows = replicate 60 [PyInt 1, PyInt 106] @ replicate 60 [PyInt 2, PyInt 5] \<rparr>"
  by (simp_all add: demo_state_def demo_source_def)

text \<open>
  Claim C7. When the server rejects the count statement of a table and answers the
  next statement, \<^verbatim>\<open>export_table\<close> returns without an error: the error of the count is
  dropped and the count is taken as 0. The table is processed all the same: its columns
  are read, the destination table is dropped and created, and then exactly one progress
  update is sent, at \<open>offset + weight\<close>, with the message \<^verbatim>\<open><table> (0 rows)\<close>.
\<close>

theorem export_table_count_error:
  assumes "my_fault (mysql s) (my_ops (mysql s))"
    and "\<not> my_fault (mysql s) (Suc (my_ops (mysql s)))"
    and "sq_accepts s 5" and "my_tables (mysql s) table = Some tb"
  shows "\<exists>e s0 s'.
    fetch_table_count table s = (Inl e, s0) \<and>
    export_table cfg table (Some progress_callback) offset_progress table_weight s = (Inr (), s') \<and>
    trace s' = trace s @
      [MyExecute (SelectCount table), MyExecute (ShowColumns table),
       SqExecute (Pragma ''foreign_keys = OFF''), SqCommit,
       SqExecute (DropTableIfExists table),
       SqExecute (CreateTable table (col_defs (export_columns cfg table (t_columns tb)))),
       SqCommit,
       Progress (offset_progress + table_weight) [S table, S '' (0 rows)'']] \<and>
    filter is_progress (drop (length (trace s)) (trace s'))
      = [Progress (offset_progress + table_weight) [S table, S '' (0 rows)'']] \<and>
    sq_disk (sqlite s') table = Some (empty_table (export_columns cfg table (t_columns tb)))"
  using fetch_table_count_rejected [OF assms(1), of table]
    export_table_count_rejected [OF assms, of cfg offset_progress table_weight]
  by (simp add: recreate_events_def is_progress_def)

theorem export_table_count_error_witness:
  "\<exists>s'. export_table demo_config ''contacts'' (Some progress_callback) 0 1
          (demo_state\<lparr>mysql := demo_source\<lparr>my_fault := (\<lambda>k. k = 0)\<rparr>\<rparr>) = (Inr (), s') \<and>
        filter is_progress (trace s') = [Progress 1 [S ''contacts'', S '' (0 rows)'']] \<and>
        sq_disk (sqlite s') ''contacts''
          = Some \<lparr>sq_columns = [(''email'', ''TEXT''), (''id'', ''TEXT'')], sq_rows = []\<rparr>"
proof -
  let ?s = "demo_state\<lparr>mysql := demo_source\<lparr>my_fault := (\<lambda>k. k = 0)\<rparr>\<rparr>"
  have a: "my_fault (mysql ?s) (my_ops (mysql ?s))"
    "\<not> my_fault (mysql ?s) (Suc (my_ops (mysql ?s)))"
    "sq_accepts ?s 5"
    by (simp_all add: demo_source_def sq_accepts_def demo_state_def demo_dest_def)
  have b: "my_tables (mysql ?s) ''contacts''
      = Some \<lparr> t_columns = [''id'', ''name'', ''email''],
             t_rows = [[PyInt 1, PyStr [0x41], PyBytes [0x61, 0xFF]],
                       [PyInt 2, PyStr [0x42], PyNone],
                       [PyInt 3, PyStr [0x43], PyBytes [0x63]],
                       [PyInt 4, PyStr [0x44], PyNone],
                       [PyInt 5, PyStr [0x45], PyNone]] \<rparr>"
    by (simp add: demo_source_def)
  have c: "export_columns demo_config ''contacts'' [''id'', ''name'', ''email''] = [''email'', ''id'']"
    by (simp add: export_columns_def demo_config_def source_config_def)
  have d: "trace ?s = []" by (simp add: demo_state_def)
  from export_table_count_error [OF a b, of demo_config 0 1]
  show ?thesis
    by (auto simp: c d empty_table_def col_defs_def)
qed


text \<open>
  Claim C8. When the server rejects the count statement of a source table that has rows,
  the destination table is dropped and created empty, and nothing is selected from the
  source or inserted into the destination: the rows that the destination held for the
  table are gone, and \<^verbatim>\<open>export_table\<close> reports no error.
\<close>

theorem count_error_empties_destination:
  assumes "my_fault (mysql s) (my_ops (mysql s))"
    and "\<not> my_fault (mysql s) (Suc (my_ops (mysql s)))"
    and "sq_accepts s 5" and "my_tables (mysql s) table = Some tb"
    and "t_rows tb \<noteq> []"
    and "sq_txn (sqlite s) = None" and "sq_disk (sqlite s) table = Some old"
  shows "\<exists>s'.
    export_table cfg table (Some progress_callback) offset_progress table_weight s = (Inr (), s') \<and>
    sq_txn (sqlite s') = None \<and>
    sq_disk (sqlite s') = (sq_disk (sqlite s))
      (table \<mapsto> \<lparr>sq_columns = col_defs (export_columns cfg table (t_columns tb)), sq_rows = []\<rparr>) \<and>
    (\<forall>ev \<in> set (drop (length (trace s)) (trace s')).
       case ev of
         MyExecute (Select _ _ _) \<Rightarrow> False
       | MyFetchMany _ _ \<Rightarrow> False
       | SqExecuteMany _ _ _ \<Rightarrow> False
       | _ \<Rightarrow> True)"
  using export_table_count_rejected [OF assms(1-4), of cfg offset_progress table_weight] assms(6)
  by (simp add: sq_view_def empty_table_def recreate_events_def)

theorem count_error_empties_destination_witness:
  "\<exists>s'. export_table demo_config ''contacts'' (Some progress_callback) 0 1
          (demo_state\<lparr>mysql := demo_source\<lparr>my_fault := (\<lambda>k. k = 0)\<rparr>\<rparr>) = (Inr (), s') \<and>
        sq_disk (sqlite demo_state) ''contacts''
          = Some \<lparr>sq_columns = [(''id'', ''TEXT'')], sq_rows = [[PyInt 99]]\<rparr> \<and>
        sq_disk (sqlite s') ''contacts''
          = Some \<lparr>sq_columns = [(''email'', ''TEXT''), (''id'', ''TEXT'')], sq_rows = []\<rparr>"
proof -
  let ?s = "demo_state\<lparr>mysql := demo_source\<lparr>my_fault := (\<lambda>k. k = 0)\<rparr>\<rparr>"
  let ?tb = "\<lparr> t_columns = [''id'', ''name'', ''email''],
             t_rows = [[PyInt 1, PyStr [0x41], PyBytes [0x61, 0xFF]],
                       [PyInt 2, PyStr [0x42], PyNone],
                       [PyInt 3, PyStr [0x43], PyBytes [0x63]],
                       [PyInt 4, PyStr [0x44], PyNone],
                       [PyInt 5, PyStr [0x45], PyNone]] \<rparr>"
  have a: "my_fault (mysql ?s) (my_ops (mysql ?s))"
    "\<not> my_fault (mysql ?s) (Suc (my_ops (mysql ?s)))"
    "sq_accepts ?s 5"
    by (simp_all add: demo_source_def sq_accepts_def demo_state_def demo_dest_def)
  have b: "my_tables (mysql ?s) ''contacts'' = Some ?tb"
    by (simp add: demo_source_def)
  have c: "export_columns demo_config ''contacts'' [''id'', ''name'', ''email''] = [''email'', ''id'']"
    by (simp add: export_columns_def demo_config_def source_config_def)
  have d: "t_rows ?tb \<noteq> []" "sq_txn (sqlite ?s) = None"
    "sq_disk (sqlite ?s) ''contacts'' = Some \<lparr>sq_columns = [(''id'', ''TEXT'')], sq_rows = [[PyInt 99]]\<rparr>"
    by (simp_all add: demo_state_def demo_dest_def)
  from count_error_empties_destination [OF a b d, of demo_config 0 1]
  show ?thesis
    by (auto simp: c col_defs_def demo_state_def demo_dest_def)
qed

subsection \<open>A table without rows in a run\<close>

text \<open>
  Claim C4, amended. For a table whose count is 0, \<^verbatim>\<open>export_table\<close> reads the count and
  the columns, drops and creates the destination table, and then sends exactly one
  progress update, at \<open>offset + weight\<close>, with the message \<^verbatim>\<open><table> (0 rows)\<close>;
  the destination table is left empty. In the loop of the worker the update
  \<^verbatim>\<open>Preparing to export <table>...\<close> at \<open>offset\<close> comes before it, so that the run
  sends two updates for the table.
\<close>

theorem zero_rows_updates:
  assumes "my_accepts s 2" and "sq_accepts s 5"
    and "my_tables (mysql s) table = Some tb" and "t_rows tb = []"
  shows "(\<exists>s'.
      export_table cfg table (Some progress_callback) offset_progress table_weight s = (Inr (), s') \<and>
      trace s' = trace s @
        [MyExecute (SelectCount table), MyExecute (ShowColumns table),
         SqExecute (Pragma ''foreign_keys = OFF''), SqCommit,
         SqExecute (DropTableIfExists table),
         SqExecute (CreateTable table (col_defs (export_columns cfg table (t_columns tb)))),
         SqCommit,
         Progress (offset_progress + table_weight) [S table, S '' (0 rows)'']] \<and>
      sq_disk (sqlite s') table = Some (empty_table (export_columns cfg table (t_columns tb)))) \<and>
    (\<exists>s'.
      export_tables cfg per_table_weight [table] tables_done s = (Inr (), s') \<and>
      filter is_progress (drop (length (trace s)) (trace s')) =
        [Progress (per_table_weight * real tables_done)
           [S ''Preparing to export '', S table, S ''...''],
         Progress (per_table_weight * real tables_done + per_table_weight)
           [S table, S '' (0 rows)'']])"
proof
  show "\<exists>s'.
      export_table cfg table (Some progress_callback) offset_progress table_weight s = (Inr (), s') \<and>
      trace s' = trace s @
        [MyExecute (SelectCount table), MyExecute (ShowColumns table),
         SqExecute (Pragma ''foreign_keys = OFF''), SqCommit,
         SqExecute (DropTableIfExists table),
         SqExecute (CreateTable table (col_defs (export_columns cfg table (t_columns tb)))),
         SqCommit,
         Progress (offset_progress + table_weight) [S table, S '' (0 rows)'']] \<and>
      sq_disk (sqlite s') table = Some (empty_table (export_columns cfg table (t_columns tb)))"
    using export_table_zero_rows [OF assms, of cfg offset_progress table_weight]
    by (simp add: recreate_events_def)
next
  let ?s1 = "progress_callback (per_table_weight * real tables_done)
      [S ''Preparing to export '', S table, S ''...''] s"
  have "my_accepts ?s1 2" "sq_accepts ?s1 5" "my_tables (mysql ?s1) table = Some tb"
    using assms by (simp_all add: my_accepts_def sq_accepts_def)
  from export_table_zero_rows [OF this assms(4), of cfg "per_table_weight * real tables_done" per_table_weight]
  show "\<exists>s'.
      export_tables cfg per_table_weight [table] tables_done s = (Inr (), s') \<and>
      filter is_progress (drop (length (trace s)) (trace s')) =
        [Progress (per_table_weight * real tables_done)
           [S ''Preparing to export '', S table, S ''...''],
         Progress (per_table_weight * real tables_done + per_table_weight)
           [S table, S '' (0 rows)'']]"
    by (simp add: Let_def recreate_events_def is_progress_def)
qed

theorem zero_rows_updates_witness:
  "my_accepts demo_state 2 \<and> sq_accepts demo_state 5 \<and>
   (\<exists>s'.
      export_table demo_config ''contact_targets'' (Some progress_callback) 0 1 demo_state = (Inr (), s') \<and>
      filter is_progress (trace s') = [Progress 1 [S ''contact_targets'', S '' (0 rows)'']] \<and>
      sq_disk (sqlite s') ''contact_targets''
        = Some \<lparr>sq_columns = [(''id'', ''TEXT''), (''target'', ''TEXT'')], sq_rows = []\<rparr>) \<and>
   (\<exists>s'.
      export_tables demo_config 1 [''contact_targets''] 0 demo_state = (Inr (), s') \<and>
      filter is_progress (trace s') =
        [Progress 0 [S ''Preparing to export '', S ''contact_targets'', S ''...''],
         Progress 1 [S ''contact_targets'', S '' (0 rows)'']])"
proof -
  have c: "export_columns demo_config ''contact_targets'' [''id'', ''target''] = [''id'', ''target'']"
    by (simp add: export_columns_def demo_config_def source_config_def)
  have d: "trace demo_state = []" by (simp add: demo_state_def)
  from zero_rows_updates [OF demo_accepts(1) demo_accepts(2) demo_tables(3), of demo_config 0 1 1 0]
  show ?thesis
    by (auto simp: c d empty_table_def col_defs_def is_progress_def)
qed

text \<open>
  The run of the worker on the table without rows of the example: between the update
  of the connection and the update of the completion, two updates are sent for the
  table, not one.
\<close>

theorem zero_rows_run_counterexample:
  "filter is_progress (fst (export_worker demo_config demo_env [(''contact_targets'', True)])) =
     [Progress 0.02 [S ''Connecting to MySQL...''],
      Progress 0 [S ''Preparing to export '', S ''contact_targets'', S ''...''],
      Progress 1 [S ''contact_targets'', S '' (0 rows)''],
      Progress 1 [S (''Export complete. Local DB saved at:'' @ [CHR 0x0A]),
                  S ''database/prod_database_local_copy.db'']]"
  by (simp add: export_worker_def demo_env_def get_mysql_connection_def export_run_def
      export_try_def export_table_def fetch_table_count_def get_table_columns_def
      show_columns_def export_columns_def my_send_def recreate_sqlite_table_def
      sq_execute_def sq_commit_def sq_send_def sq_write_ddl_def sq_view_def sq_close_def
      my_close_def progress_callback_def emit_def Let_def demo_source_def demo_dest_def
      demo_config_def source_config_def is_progress_def col_defs_def)

subsection \<open>A table with rows\<close>

lemma is_progress_simps [simp]:
  "is_progress (Progress f m)"
  "\<not> is_progress (MyExecute q)"
  "\<not> is_progress (MyFetchMany a b)"
  "\<not> is_progress MyClose"
  "\<not> is_progress (SqExecute st)"
  "\<not> is_progress (SqExecuteMany t cs rs)"
  "\<not> is_progress SqCommit"
  "\<not> is_progress SqClose"
  "\<not> is_progress (ShowInfo a1 a2)"
  "\<not> is_progress (ShowError a3 a4)"
  "\<not> is_progress (RunButton b1)"
  "\<not> is_progress RefreshStatus"
  "\<not> is_progress HideAuxFiles"
  "\<not> is_progress AskOpenFolder"
  by (simp_all add: is_progress_def)

lemma filter_row_updates [simp]:
  "filter is_progress (row_updates table off w total_rows n m) = row_updates table off w total_rows n m"
  by (simp add: row_updates_def row_update_def filter_map comp_def)

lemma filter_recreate_events [simp]: "filter is_progress (recreate_events table columns) = []"
  by (simp add: recreate_events_def)

lemma row_updates_append:
  "row_updates table off w total_rows n a @ row_updates table off w total_rows (n + a) b
     = row_updates table off w total_rows n (a + b)"
proof -
  have "[n + 1 ..< n + (a + b) + 1] = [n + 1 ..< n + a + 1] @ [n + a + 1 ..< n + a + b + 1]"
    using upt_add_eq_append [of "n + 1" "n + a + 1" b] by (simp add: add.assoc)
  then show ?thesis by (simp add: row_updates_def)
qed

lemma filter_page_blocks:
  "filter is_progress (page_blocks chunk table columns off w total_rows n ps)
     = row_updates table off w total_rows n (length (concat ps))"
  by (induction ps arbitrary: n) (simp_all add: row_updates_append)

lemma length_select_rows:
  "length (select_rows c tb columns p)
     = length (filter (\<lambda>r. case p of None \<Rightarrow> True | Some q \<Rightarrow> my_where c q (t_columns tb) r) (t_rows tb))"
proof -
  have "length (concat (map (\<lambda>r. if P r then [f r] else []) rs)) = length (filter P rs)"
    for P :: "row \<Rightarrow> bool" and f :: "row \<Rightarrow> row" and rs
    by (induction rs) simp_all
  then show ?thesis by (simp add: select_rows_def)
qed

lemma cols_in_defs: "set columns \<subseteq> fst ` set (sq_columns (empty_table columns))"
  by (auto simp: empty_table_def col_defs_def image_iff)

lemma export_table_complete:
  assumes "my_accepts s 3"
    and "sq_accepts s (5 + 2 * length (pages (CHUNK_SIZE cfg)
           (select_rows (mysql s) tb (export_columns cfg table (t_columns tb)) (TABLE_FILTERS cfg table))))"
    and "my_tables (mysql s) table = Some tb" and "t_rows tb \<noteq> []"
  shows "\<exists>s'. export_table cfg table (Some progress_callback) off w s = (Inr (), s') \<and>
     my_tables (mysql s') = my_tables (mysql s) \<and>
     my_where (mysql s') = my_where (mysql s) \<and>
     my_fault (mysql s') = my_fault (mysql s) \<and>
     my_ops (mysql s') = my_ops (mysql s) + 3 \<and>
     sq_fault (sqlite s') = sq_fault (sqlite s) \<and>
     sq_ops (sqlite s') = sq_ops (sqlite s) + 5 + 2 * length (pages (CHUNK_SIZE cfg)
         (select_rows (mysql s) tb (export_columns cfg table (t_columns tb)) (TABLE_FILTERS cfg table))) \<and>
     sq_txn (sqlite s') = None \<and>
     sq_disk (sqlite s') = (sq_view (sqlite s))
       (table \<mapsto> \<lparr>sq_columns = col_defs (export_columns cfg table (t_columns tb)),
                  sq_rows = map (stored_row (empty_table (export_columns cfg table (t_columns tb)))
                                   (export_columns cfg table (t_columns tb)))
                    (concat (pages (CHUNK_SIZE cfg) (map (map text_value)
                       (select_rows (mysql s) tb (export_columns cfg table (t_columns tb))
                          (TABLE_FILTERS cfg table)))))\<rparr>) \<and>
     trace s' = trace s
       @ [MyExecute (SelectCount table), MyExecute (ShowColumns table)]
       @ recreate_events table (export_columns cfg table (t_columns tb))
       @ [MyExecute (Select (export_columns cfg table (t_columns tb)) table (TABLE_FILTERS cfg table))]
       @ page_blocks (CHUNK_SIZE cfg) table (export_columns cfg table (t_columns tb)) off w
           (length (t_rows tb)) 0
           (pages (CHUNK_SIZE cfg) (map (map text_value)
              (select_rows (mysql s) tb (export_columns cfg table (t_columns tb)) (TABLE_FILTERS cfg table))))
       @ [MyFetchMany (CHUNK_SIZE cfg) 0]"
proof -
  let ?cols = "export_columns cfg table (t_columns tb)"
  let ?buffer = "select_rows (mysql s) tb ?cols (TABLE_FILTERS cfg table)"
  let ?np = "length (pages (CHUNK_SIZE cfg) ?buffer)"
  let ?s3 = "my_sent [Select ?cols table (TABLE_FILTERS cfg table)]
         (after_recreate table ?cols (my_sent [SelectCount table, ShowColumns table] s))"
  from assms(2) have acc5: "sq_accepts s 5" by (rule sq_accepts_mono) simp
  have run: "export_table cfg table (Some progress_callback) off w s =
    export_pages cfg table ?cols (Some progress_callback) off w (length (t_rows tb)) ?buffer 0 ?s3"
    by (rule export_table_rows [OF assms(1) acc5 assms(3,4)])
  have acc: "sq_accepts ?s3 (2 * ?np)"
    by (rule sq_accepts_shift [OF assms(2)]) simp_all
  have "\<exists>s'. export_pages cfg table ?cols (Some progress_callback) off w (length (t_rows tb)) ?buffer 0 ?s3
             = (Inr (), s') \<and>
           mysql s' = mysql ?s3 \<and>
           sq_fault (sqlite s') = sq_fault (sqlite ?s3) \<and>
           sq_ops (sqlite s') = sq_ops (sqlite ?s3) + 2 * ?np \<and>
           sq_txn (sqlite s') = None \<and>
           sq_disk (sqlite s') = (sq_disk (sqlite ?s3))
             (table \<mapsto> (empty_table ?cols)\<lparr>sq_rows := sq_rows (empty_table ?cols)
                @ map (stored_row (empty_table ?cols) ?cols)
                (concat (pages (CHUNK_SIZE cfg) (map (map text_value) ?buffer)))\<rparr>) \<and>
           trace s' = trace ?s3
             @ page_blocks (CHUNK_SIZE cfg) table ?cols off w (length (t_rows tb)) 0
                 (pages (CHUNK_SIZE cfg) (map (map text_value) ?buffer))
             @ [MyFetchMany (CHUNK_SIZE cfg) 0]"
  proof (rule export_pages_ok [OF acc])
    show "sq_txn (sqlite ?s3) = None" by simp
    show "sq_disk (sqlite ?s3) table = Some (empty_table ?cols)" by simp
    show "set ?cols \<subseteq> fst ` set (sq_columns (empty_table ?cols))" by (rule cols_in_defs)
    show "\<forall>r\<in>set ?buffer. length r = length ?cols" by (auto dest: select_rows_length)
  qed
  then obtain s' where s':
    "export_pages cfg table ?cols (Some progress_callback) off w (length (t_rows tb)) ?buffer 0 ?s3
             = (Inr (), s')"
    "mysql s' = mysql ?s3"
    "sq_fault (sqlite s') = sq_fault (sqlite ?s3)"
    "sq_ops (sqlite s') = sq_ops (sqlite ?s3) + 2 * ?np"
    "sq_txn (sqlite s') = None"
    "sq_disk (sqlite s') = (sq_disk (sqlite ?s3))
             (table \<mapsto> (empty_table ?cols)\<lparr>sq_rows := sq_rows (empty_table ?cols)
                @ map (stored_row (empty_table ?cols) ?cols)
                (concat (pages (CHUNK_SIZE cfg) (map (map text_value) ?buffer)))\<rparr>)"
    "trace s' = trace ?s3
             @ page_blocks (CHUNK_SIZE cfg) table ?cols off w (length (t_rows tb)) 0
                 (pages (CHUNK_SIZE cfg) (map (map text_value) ?buffer))
             @ [MyFetchMany (CHUNK_SIZE cfg) 0]"
    by blast
  show ?thesis
    unfolding run
    by (rule exI [of _ s']) (simp add: s' empty_table_def)
qed

subsection \<open>The updates of a table with rows\<close>

lemma length_concat_pages:
  "0 < n \<Longrightarrow> length (concat (pages n (map f xs))) = length xs"
  by (simp add: concat_pages)

lemma row_updates_unfold:
  "row_updates table off w total_rows 0 m =
    map (\<lambda>k. Progress (off + w * (real k / real total_rows))
               [S table, S '': '', N k, S ''/'', N total_rows,
                S '' rows ('', Pct (real k / real total_rows * 100), S ''%)''])
      [k \<leftarrow> [1 ..< m + 1]. k mod 50 = 0]"
  by (simp add: row_updates_def row_update_def)

lemma filter_new_events:
  "filter is_progress
     ([MyExecute q1, MyExecute q2] @ recreate_events table columns @ [MyExecute q3]
      @ page_blocks chunk table columns off w total_rows 0 ps @ [MyFetchMany chunk 0])
    = row_updates table off w total_rows 0 (length (concat ps))"
  by (simp add: filter_page_blocks)

text \<open>
  Claim C5. When no operation is rejected, \<^verbatim>\<open>export_table\<close> on a table with rows sends
  one progress update for every \<open>k\<close> from 1 to the number of selected rows that is a
  multiple of 50, in increasing order, and no other update. \<open>k\<close> counts the rows
  over all pages: the updates do not depend on \<^verbatim>\<open>CHUNK_SIZE\<close>. The update for \<open>k\<close>
  has the fraction \<open>offset + weight * (k / total_rows)\<close> and a message made of the
  table, \<open>k\<close>, \<open>total_rows\<close> and the percentage \<open>k / total_rows * 100\<close>. In the
  trace the updates of a page follow the commit of that page.
\<close>

theorem row_progress_updates:
  assumes "my_accepts s 3"
    and "sq_accepts s (5 + 2 * length (pages (CHUNK_SIZE cfg) buffer))"
    and "my_tables (mysql s) table = Some tb" and "t_rows tb \<noteq> []"
    and "0 < CHUNK_SIZE cfg"
    and "columns = export_columns cfg table (t_columns tb)"
    and "buffer = select_rows (mysql s) tb columns (TABLE_FILTERS cfg table)"
    and "total_rows = length (t_rows tb)"
  shows "\<exists>s'.
    export_table cfg table (Some progress_callback) offset_progress table_weight s = (Inr (), s') \<and>
    filter is_progress (drop (length (trace s)) (trace s')) =
      map (\<lambda>k. Progress (offset_progress + table_weight * (real k / real total_rows))
                 [S table, S '': '', N k, S ''/'', N total_rows,
                  S '' rows ('', Pct (real k / real total_rows * 100), S ''%)''])
        [k \<leftarrow> [1 ..< length buffer + 1]. k mod 50 = 0] \<and>
    drop (length (trace s)) (trace s') =
      [MyExecute (SelectCount table), MyExecute (ShowColumns table)]
      @ recreate_events table columns
      @ [MyExecute (Select columns table (TABLE_FILTERS cfg table))]
      @ page_blocks (CHUNK_SIZE cfg) table columns offset_progress table_weight total_rows 0
          (pages (CHUNK_SIZE cfg) (map (map text_value) buffer))
      @ [MyFetchMany (CHUNK_SIZE cfg) 0]"
proof -
  from export_table_complete [OF assms(1) assms(2) [unfolded assms(7) assms(6)] assms(3,4),
      of offset_progress table_weight]
  obtain s' where s':
    "export_table cfg table (Some progress_callback) offset_progress table_weight s = (Inr (), s')"
    "trace s' = trace s
       @ [MyExecute (SelectCount table), MyExecute (ShowColumns table)]
       @ recreate_events table columns
       @ [MyExecute (Select columns table (TABLE_FILTERS cfg table))]
       @ page_blocks (CHUNK_SIZE cfg) table columns offset_progress table_weight total_rows 0
           (pages (CHUNK_SIZE cfg) (map (map text_value) buffer))
       @ [MyFetchMany (CHUNK_SIZE cfg) 0]"
    unfolding assms(6,7,8) by blast
  have new: "drop (length (trace s)) (trace s') =
      [MyExecute (SelectCount table), MyExecute (ShowColumns table)]
      @ recreate_events table columns
      @ [MyExecute (Select columns table (TABLE_FILTERS cfg table))]
      @ page_blocks (CHUNK_SIZE cfg) table columns offset_progress table_weight total_rows 0
          (pages (CHUNK_SIZE cfg) (map (map text_value) buffer))
      @ [MyFetchMany (CHUNK_SIZE cfg) 0]"
    unfolding s'(2) by simp
  have "filter is_progress (drop (length (trace s)) (trace s')) =
      row_updates table offset_progress table_weight total_rows 0 (length buffer)"
    unfolding new filter_new_events length_concat_pages [OF assms(5)] ..
  with s'(1) new show ?thesis
    unfolding row_updates_unfold by blast
qed

theorem row_progress_updates_witness:
  "\<exists>s'.
    export_table demo_config ''contact_addresses'' (Some progress_callback) (1 / 4) (1 / 4) demo_state
      = (Inr (), s') \<and>
    filter is_progress (trace s') =
      [Progress (1 / 4 + 1 / 4 * (50 / 120))
         [S ''contact_addresses'', S '': '', N 50, S ''/'', N 120,
          S '' rows ('', Pct (50 / 120 * 100), S ''%)''],
       Progress (1 / 4 + 1 / 4 * (100 / 120))
         [S ''contact_addresses'', S '': '', N 100, S ''/'', N 120,
          S '' rows ('', Pct (100 / 120 * 100), S ''%)'']]"
proof -
  let ?tb = "\<lparr> t_columns = [''id'', ''city''], t_rows = replicate 120 [PyInt 1, PyBytes [0x41]] \<rparr>"
  let ?buffer = "select_rows (mysql demo_state) ?tb [''id'', ''city'']
      (TABLE_FILTERS demo_config ''contact_addresses'')"
  have h: "t_rows ?tb \<noteq> []" "0 < CHUNK_SIZE demo_config"
    "[''id'', ''city''] = export_columns demo_config ''contact_addresses'' (t_columns ?tb)"
    "120 = length (t_rows ?tb)"
    by (simp_all add: export_columns_def demo_config_def source_config_def)
  have len: "length ?buffer = 120"
    by (simp add: length_select_rows demo_config_def source_config_def)
  have f: "[k \<leftarrow> [1 ..< 120 + 1]. k mod 50 = 0] = [50, 100 :: nat]"
    by code_simp
  have d: "trace demo_state = []" by (simp add: demo_state_def)
  from row_progress_updates [OF demo_accepts(1) demo_accepts(2) demo_tables(4) h(1,2,3) refl h(4),
      of "1 / 4" "1 / 4"]
  obtain s' where
    "export_table demo_config ''contact_addresses'' (Some progress_callback) (1 / 4) (1 / 4) demo_state
      = (Inr (), s')"
    "filter is_progress (drop (length (trace demo_state)) (trace s')) =
      map (\<lambda>k. Progress (1 / 4 + 1 / 4 * (real k / real (120 :: nat)))
                 [S ''contact_addresses'', S '': '', N k, S ''/'', N 120,
                  S '' rows ('', Pct (real k / real (120 :: nat) * 100), S ''%)''])
        [k \<leftarrow> [1 ..< length ?buffer + 1]. k mod 50 = 0]"
    by blast
  then show ?thesis
    unfolding len f d by simp
qed

subsection \<open>A table with a filter\<close>

lemma row_updates_below:
  assumes "ev \<in> set (row_updates table off w total_rows 0 m)" and "m < total_rows" and "0 < w"
  shows "\<exists>f msg. ev = Progress f msg \<and> f < off + w"
proof -
  from assms(1) have "ev \<in> row_update table off w total_rows
      ` set [k \<leftarrow> [0 + 1 ..< 0 + m + 1]. k mod 50 = 0]"
    by (simp only: row_updates_def set_map)
  then obtain k where k: "k \<in> set [k \<leftarrow> [0 + 1 ..< 0 + m + 1]. k mod 50 = 0]"
    "ev = row_update table off w total_rows k"
    by (rule imageE)
  from k(1) have "k \<le> m" by auto
  with assms(2) have "real k / real total_rows < 1" by simp
  with assms(3) have "w * (real k / real total_rows) < w * 1"
    by (intro mult_strict_left_mono) simp_all
  with k(2) show ?thesis by (simp add: row_update_def)
qed

text \<open>
  Claim C6. For a table with a filter in \<^verbatim>\<open>TABLE_FILTERS\<close>, when no operation is
  rejected: the rows inserted are the rows that pass the filter, while the updates
  divide the counter of inserted rows by the number of all rows of the table. The
  updates are those for the multiples of 50 up to the number of rows that pass the
  filter. So if the filter leaves out a row, every update sent by \<^verbatim>\<open>export_table\<close> has
  a fraction below \<open>offset + weight\<close> (the weight being positive, as in every run), and
  if no row passes the filter no update is sent at all.
\<close>

theorem filtered_table_progress:
  assumes "my_accepts s 3"
    and "sq_accepts s (5 + 2 * length (pages (CHUNK_SIZE cfg) buffer))"
    and "my_tables (mysql s) table = Some tb" and "t_rows tb \<noteq> []"
    and "0 < CHUNK_SIZE cfg" and "0 < table_weight"
    and "TABLE_FILTERS cfg table = Some p"
    and "columns = export_columns cfg table (t_columns tb)"
    and "buffer = select_rows (mysql s) tb columns (Some p)"
    and "matched = filter (my_where (mysql s) p (t_columns tb)) (t_rows tb)"
    and "total_rows = length (t_rows tb)"
  shows "\<exists>s' dest.
    export_table cfg table (Some progress_callback) offset_progress table_weight s = (Inr (), s') \<and>
    sq_disk (sqlite s') table = Some dest \<and> length (sq_rows dest) = length matched \<and>
    filter is_progress (drop (length (trace s)) (trace s')) =
      map (\<lambda>k. Progress (offset_progress + table_weight * (real k / real total_rows))
                 [S table, S '': '', N k, S ''/'', N total_rows,
                  S '' rows ('', Pct (real k / real total_rows * 100), S ''%)''])
        [k \<leftarrow> [1 ..< length matched + 1]. k mod 50 = 0] \<and>
    (length matched < total_rows \<longrightarrow>
       (\<forall>ev \<in> set (filter is_progress (drop (length (trace s)) (trace s'))).
          \<exists>f msg. ev = Progress f msg \<and> f < offset_progress + table_weight)) \<and>
    (matched = [] \<longrightarrow> filter is_progress (drop (length (trace s)) (trace s')) = [])"
proof -
  have buf: "buffer = select_rows (mysql s) tb (export_columns cfg table (t_columns tb))
      (TABLE_FILTERS cfg table)"
    by (simp add: assms(7,8,9))
  have len: "length buffer = length matched"
    by (simp add: assms(9,10) length_select_rows)
  from export_table_complete [OF assms(1) assms(2) [unfolded buf] assms(3,4),
      of offset_progress table_weight]
  obtain s' where s':
    "export_table cfg table (Some progress_callback) offset_progress table_weight s = (Inr (), s')"
    "sq_disk (sqlite s') = (sq_view (sqlite s))
       (table \<mapsto> \<lparr>sq_columns = col_defs columns,
                  sq_rows = map (stored_row (empty_table columns) columns)
                    (concat (pages (CHUNK_SIZE cfg) (map (map text_value) buffer)))\<rparr>)"
    "trace s' = trace s
       @ [MyExecute (SelectCount table), MyExecute (ShowColumns table)]
       @ recreate_events table columns
       @ [MyExecute (Select columns table (TABLE_FILTERS cfg table))]
       @ page_blocks (CHUNK_SIZE cfg) table columns offset_progress table_weight total_rows 0
           (pages (CHUNK_SIZE cfg) (map (map text_value) buffer))
       @ [MyFetchMany (CHUNK_SIZE cfg) 0]"
    unfolding assms(7,8,9,11) by blast
  let ?new = "drop (length (trace s)) (trace s')"
  let ?dest = "\<lparr>sq_columns = col_defs columns,
                  sq_rows = map (stored_row (empty_table columns) columns)
                    (concat (pages (CHUNK_SIZE cfg) (map (map text_value) buffer)))\<rparr>"
  have new: "?new =
      [MyExecute (SelectCount table), MyExecute (ShowColumns table)]
      @ recreate_events table columns
      @ [MyExecute (Select columns table (TABLE_FILTERS cfg table))]
      @ page_blocks (CHUNK_SIZE cfg) table columns offset_progress table_weight total_rows 0
          (pages (CHUNK_SIZE cfg) (map (map text_value) buffer))
      @ [MyFetchMany (CHUNK_SIZE cfg) 0]"
    unfolding s'(3) by simp
  have ups: "filter is_progress ?new =
      row_updates table offset_progress table_weight total_rows 0 (length matched)"
    unfolding new filter_new_events length_concat_pages [OF assms(5)] len ..
  have dest: "sq_disk (sqlite s') table = Some ?dest" "length (sq_rows ?dest) = length matched"
    using len by (simp_all add: s'(2) concat_pages [OF assms(5)])
  have below: "\<forall>ev \<in> set (filter is_progress ?new).
      \<exists>f msg. ev = Progress f msg \<and> f < offset_progress + table_weight"
    if "length matched < total_rows"
    unfolding ups using row_updates_below [OF _ that assms(6)] by blast
  have none: "filter is_progress ?new = []" if "matched = []"
    unfolding ups using that by simp
  show ?thesis
  proof (intro exI conjI)
    show "export_table cfg table (Some progress_callback) offset_progress table_weight s = (Inr (), s')"
      by (rule s'(1))
    show "sq_disk (sqlite s') table = Some ?dest" by (rule dest(1))
    show "length (sq_rows ?dest) = length matched" by (rule dest(2))
    show "filter is_progress ?new =
      map (\<lambda>k. Progress (offset_progress + table_weight * (real k / real total_rows))
                 [S table, S '': '', N k, S ''/'', N total_rows,
                  S '' rows ('', Pct (real k / real total_rows * 100), S ''%)''])
        [k \<leftarrow> [1 ..< length matched + 1]. k mod 50 = 0]"
      unfolding ups row_updates_unfold ..
    show "length matched < total_rows \<longrightarrow>
       (\<forall>ev \<in> set (filter is_progress ?new).
          \<exists>f msg. ev = Progress f msg \<and> f < offset_progress + table_weight)"
      using below by (rule impI)
    show "matched = [] \<longrightarrow> filter is_progress ?new = []"
      using none by (rule impI)
  qed
qed

theorem filtered_table_progress_witness:
  "(\<exists>s' dest.
      export_table demo_config ''upload_processors'' (Some progress_callback) (1 / 2) (1 / 4) demo_state
        = (Inr (), s') \<and>
      sq_disk (sqlite s') ''upload_processors'' = Some dest \<and> length (sq_rows dest) = 60 \<and>
      filter is_progress (trace s') =
        [Progress (1 / 2 + 1 / 4 * (50 / 120))
           [S ''upload_processors'', S '': '', N 50, S ''/'', N 120,
            S '' rows ('', Pct (50 / 120 * 100), S ''%)'']]) \<and>
   1 / 2 + 1 / 4 * (50 / 120) < (1 / 2 + 1 / 4 :: real)"
proof -
  let ?tb = "\<lparr> t_columns = [''id'', ''uploaded_by''],
             t_rows = replicate 60 [PyInt 1, PyInt 106] @ replicate 60 [PyInt 2, PyInt 5] \<rparr>"
  let ?p = "''uploaded_by IN (106, 109)''"
  let ?matched = "filter (my_where (mysql demo_state) ?p (t_columns ?tb)) (t_rows ?tb)"
  have h: "t_rows ?tb \<noteq> []" "0 < CHUNK_SIZE demo_config" "(0 :: real) < 1 / 4"
    "TABLE_FILTERS demo_config ''upload_processors'' = Some ?p"
    "[''id'', ''uploaded_by''] = export_columns demo_config ''upload_processors'' (t_columns ?tb)"
    "120 = length (t_rows ?tb)"
    by (simp_all add: export_columns_def demo_config_def source_config_def)
  have m: "?matched = replicate 60 [PyInt 1, PyInt 106]"
    by (simp add: demo_state_def demo_source_def cell_def)
  have f: "[k \<leftarrow> [1 ..< 60 + 1]. k mod 50 = 0] = [50 :: nat]"
    by code_simp
  have d: "trace demo_state = []" by (simp add: demo_state_def)
  from filtered_table_progress [OF demo_accepts(1) demo_accepts(2) demo_tables(5) h(1,2,3,4,5) refl refl h(6),
      of "1 / 2"]
  obtain s' dest where
    "export_table demo_config ''upload_processors'' (Some progress_callback) (1 / 2) (1 / 4) demo_state
      = (Inr (), s')"
    "sq_disk (sqlite s') ''upload_processors'' = Some dest"
    "length (sq_rows dest) = length ?matched"
    "filter is_progress (drop (length (trace demo_state)) (trace s')) =
      map (\<lambda>k. Progress (1 / 2 + 1 / 4 * (real k / real (120 :: nat)))
                 [S ''upload_processors'', S '': '', N k, S ''/'', N 120,
                  S '' rows ('', Pct (real k / real (120 :: nat) * 100), S ''%)''])
        [k \<leftarrow> [1 ..< length ?matched + 1]. k mod 50 = 0]"
    by blast
  then show ?thesis
    unfolding m length_replicate f d by simp
qed

end
